theory Spec2Isabelle
  imports Complex_Main "HOL-Library.Multiset" "HOL-Library.Char_ord" "HOL-Library.List_Lexorder"
begin

section \<open>Errors\<close>

text \<open>
  The exceptions that the modelled code and the library calls it makes can raise.
  \<open>TransportError\<close> stands for any exception of a network call (timeout, DNS failure,
  connection refused, a body that is not JSON).
\<close>

datatype error =
  ValueError | KeyError | TypeError | AttributeError | ZeroDivisionError | OverflowError
  | TransportError

section \<open>Floating-point columns\<close>

text \<open>
  A \<^verbatim>\<open>float64\<close> cell is a finite binary64 number, kept as the real number it denotes,
  or NaN (\<open>None\<close>). Every arithmetic operation rounds its exact result once, to the nearest
  binary64 number, ties to the even significand (\<open>rnd\<close>); a multiplication followed by an
  addition is two roundings. Overflow to an infinity and the sign of zero are not
  modelled. Arithmetic propagates NaN and every comparison with NaN is false.
\<close>

type_synonym float64 = "real option"

definition round_even :: "real \<Rightarrow> int" where
  "round_even x =
     (let f = \<lfloor>x\<rfloor> in
      if x - of_int f < 1 / 2 then f
      else if 1 / 2 < x - of_int f then f + 1
      else if even f then f else f + 1)"

text \<open>
  The exponent of the unit in the last place of the binary64 numbers around \<open>x\<close>:
  53 significant bits, the smallest normal exponent \<open>-1022\<close>.
\<close>

definition ulp_exponent :: "real \<Rightarrow> int" where
  "ulp_exponent x = max \<lfloor>log 2 \<bar>x\<bar>\<rfloor> (- 1022) - 52"

definition rnd :: "real \<Rightarrow> real" where
  "rnd x =
     (if x = 0 then 0
      else of_int (round_even (x / 2 powi ulp_exponent x)) * 2 powi ulp_exponent x)"

definition fadd :: "float64 \<Rightarrow> float64 \<Rightarrow> float64" where
  "fadd a b = (case a of None \<Rightarrow> None | Some x \<Rightarrow> (case b of None \<Rightarrow> None | Some y \<Rightarrow> Some (rnd (x + y))))"

definition fsub :: "float64 \<Rightarrow> float64 \<Rightarrow> float64" where
  "fsub a b = (case a of None \<Rightarrow> None | Some x \<Rightarrow> (case b of None \<Rightarrow> None | Some y \<Rightarrow> Some (rnd (x - y))))"

definition fmul :: "float64 \<Rightarrow> float64 \<Rightarrow> float64" where
  "fmul a b = (case a of None \<Rightarrow> None | Some x \<Rightarrow> (case b of None \<Rightarrow> None | Some y \<Rightarrow> Some (rnd (x * y))))"

definition fgt :: "float64 \<Rightarrow> float64 \<Rightarrow> bool" where
  "fgt a b = (case a of None \<Rightarrow> False | Some x \<Rightarrow> (case b of None \<Rightarrow> False | Some y \<Rightarrow> y < x))"

definition flt :: "float64 \<Rightarrow> float64 \<Rightarrow> bool" where
  "flt a b = (case a of None \<Rightarrow> False | Some x \<Rightarrow> (case b of None \<Rightarrow> False | Some y \<Rightarrow> x < y))"

definition notna :: "float64 \<Rightarrow> bool" where
  "notna a = (a \<noteq> None)"

text \<open>The valid (non-null) cells of a column, in order.\<close>

primrec dropna :: "'a option list \<Rightarrow> 'a list" where
  "dropna [] = []"
| "dropna (a # as) = (case a of None \<Rightarrow> dropna as | Some x \<Rightarrow> x # dropna as)"

text \<open>
  Mean and variance with one delta degree of freedom of a list of observations, over the
  reals. They give the statistics of the season groups, whose rounding is not modelled,
  and the mean and the sample standard deviation that the specification speaks of.
\<close>

definition obs_mean :: "real list \<Rightarrow> real" where
  "obs_mean xs = sum_list xs / real (length xs)"

definition obs_var :: "real list \<Rightarrow> real" where
  "obs_var xs = sum_list (map (\<lambda>x. (x - obs_mean xs)\<^sup>2) xs) / (real (length xs) - 1)"

section \<open>Rolling statistics of a series\<close>

text \<open>
  \<^verbatim>\<open>Series.rolling(window=w, min_periods=minp)\<close> looks, at position \<open>i\<close>, at the trailing
  window of at most \<open>w\<close> cells that ends at \<open>i\<close>.
\<close>

definition window_at :: "nat \<Rightarrow> 'a list \<Rightarrow> nat \<Rightarrow> 'a list" where
  "window_at w xs i = drop (Suc i - w) (take (Suc i) xs)"

text \<open>
  pandas computes the rolling mean and variance online: one accumulator is carried from
  row to row, the cell that leaves the window is removed from it and the cell that enters
  is added. The fields the two accumulators share: the number of valid observations in
  the window, the compensation terms of the Kahan summation, the length of the current run
  of equal values and the value last added.
\<close>

record accumulator =
  nobs :: nat
  compensation_add :: real
  compensation_remove :: real
  num_consecutive_same_value :: nat
  prev_value :: float64

record mean_accumulator = accumulator +
  sum_x :: real
  neg_ct :: nat

record var_accumulator = accumulator +
  mean_x :: real
  ssqdm_x :: real

text \<open>\<^verbatim>\<open>add_mean\<close>, \<^verbatim>\<open>remove_mean\<close> and \<^verbatim>\<open>calc_mean\<close> of the rolling mean; a NaN cell is skipped.\<close>

definition add_mean :: "float64 \<Rightarrow> mean_accumulator \<Rightarrow> mean_accumulator" where
  "add_mean val st =
     (case val of
        None \<Rightarrow> st
      | Some v \<Rightarrow>
          let y = rnd (v - compensation_add st);
              t = rnd (sum_x st + y)
          in st\<lparr>nobs := nobs st + 1,
                compensation_add := rnd (rnd (t - sum_x st) - y),
                sum_x := t,
                neg_ct := (if v < 0 then neg_ct st + 1 else neg_ct st),
                num_consecutive_same_value :=
                  (if Some v = prev_value st then num_consecutive_same_value st + 1 else 1),
                prev_value := Some v\<rparr>)"

definition remove_mean :: "float64 \<Rightarrow> mean_accumulator \<Rightarrow> mean_accumulator" where
  "remove_mean val st =
     (case val of
        None \<Rightarrow> st
      | Some v \<Rightarrow>
          let y = rnd (- v - compensation_remove st);
              t = rnd (sum_x st + y)
          in st\<lparr>nobs := nobs st - 1,
                compensation_remove := rnd (rnd (t - sum_x st) - y),
                sum_x := t,
                neg_ct := (if v < 0 then neg_ct st - 1 else neg_ct st)\<rparr>)"

definition calc_mean :: "nat \<Rightarrow> mean_accumulator \<Rightarrow> float64" where
  "calc_mean minp st =
     (if minp \<le> nobs st \<and> 0 < nobs st then
        let result = rnd (sum_x st / real (nobs st))
        in if nobs st \<le> num_consecutive_same_value st then prev_value st
           else if neg_ct st = 0 \<and> result < 0 then Some 0
           else if neg_ct st = nobs st \<and> 0 < result then Some 0
           else Some result
      else None)"

text \<open>
  The accumulator after row \<open>i\<close>, for a window of \<open>w \<ge> 1\<close> cells: row 0 is added to the
  empty accumulator; at a later row the cell \<open>i - w\<close> is removed when there is one, then
  cell \<open>i\<close> is added.
\<close>

fun mean_state :: "nat \<Rightarrow> float64 list \<Rightarrow> nat \<Rightarrow> mean_accumulator" where
  "mean_state w xs 0 =
     add_mean (xs ! 0)
       \<lparr>nobs = 0, compensation_add = 0, compensation_remove = 0,
        num_consecutive_same_value = 0, prev_value = xs ! 0, sum_x = 0, neg_ct = 0\<rparr>"
| "mean_state w xs (Suc i) =
     add_mean (xs ! Suc i)
       (if w \<le> Suc i then remove_mean (xs ! (Suc i - w)) (mean_state w xs i)
        else mean_state w xs i)"

text \<open>
  \<^verbatim>\<open>.rolling(window=w, min_periods=minp).mean()\<close>. A window of no cell has no observation.
\<close>

definition rolling_mean :: "nat \<Rightarrow> nat \<Rightarrow> float64 list \<Rightarrow> float64 list" where
  "rolling_mean w minp xs =
     map (\<lambda>i. if w = 0 then None else calc_mean minp (mean_state w xs i)) [0..<length xs]"

text \<open>
  \<^verbatim>\<open>add_var\<close>, \<^verbatim>\<open>remove_var\<close> and \<^verbatim>\<open>calc_var\<close> of the rolling variance with one delta
  degree of freedom: Welford's update with Kahan compensation.
\<close>

definition add_var :: "float64 \<Rightarrow> var_accumulator \<Rightarrow> var_accumulator" where
  "add_var val st =
     (case val of
        None \<Rightarrow> st
      | Some v \<Rightarrow>
          let n = nobs st + 1;
              prev_mean = rnd (mean_x st - compensation_add st);
              y = rnd (v - compensation_add st);
              t = rnd (y - mean_x st);
              m = rnd (mean_x st + rnd (t / real n))
          in st\<lparr>nobs := n,
                num_consecutive_same_value :=
                  (if Some v = prev_value st then num_consecutive_same_value st + 1 else 1),
                prev_value := Some v,
                compensation_add := rnd (rnd (t + mean_x st) - y),
                mean_x := m,
                ssqdm_x := rnd (ssqdm_x st + rnd (rnd (v - prev_mean) * rnd (v - m)))\<rparr>)"

definition remove_var :: "float64 \<Rightarrow> var_accumulator \<Rightarrow> var_accumulator" where
  "remove_var val st =
     (case val of
        None \<Rightarrow> st
      | Some v \<Rightarrow>
          let n = nobs st - 1 in
          if n \<noteq> 0 then
            let prev_mean = rnd (mean_x st - compensation_remove st);
                y = rnd (v - compensation_remove st);
                t = rnd (y - mean_x st);
                m = rnd (mean_x st - rnd (t / real n))
            in st\<lparr>nobs := n,
                  compensation_remove := rnd (rnd (t + mean_x st) - y),
                  mean_x := m,
                  ssqdm_x := rnd (ssqdm_x st - rnd (rnd (v - prev_mean) * rnd (v - m)))\<rparr>
          else st\<lparr>nobs := n, mean_x := 0, ssqdm_x := 0\<rparr>)"

definition calc_var :: "nat \<Rightarrow> var_accumulator \<Rightarrow> float64" where
  "calc_var minp st =
     (if max minp 1 \<le> nobs st \<and> 1 < nobs st then
        if nobs st = 1 \<or> nobs st \<le> num_consecutive_same_value st then Some 0
        else Some (rnd (ssqdm_x st / (real (nobs st) - 1)))
      else None)"

fun var_state :: "nat \<Rightarrow> float64 list \<Rightarrow> nat \<Rightarrow> var_accumulator" where
  "var_state w xs 0 =
     add_var (xs ! 0)
       \<lparr>nobs = 0, compensation_add = 0, compensation_remove = 0,
        num_consecutive_same_value = 0, prev_value = xs ! 0, mean_x = 0, ssqdm_x = 0\<rparr>"
| "var_state w xs (Suc i) =
     add_var (xs ! Suc i)
       (if w \<le> Suc i then remove_var (xs ! (Suc i - w)) (var_state w xs i)
        else var_state w xs i)"

text \<open>The square root that maps a negative variance to zero (\<^verbatim>\<open>zsqrt\<close>).\<close>

definition zsqrt :: "float64 \<Rightarrow> float64" where
  "zsqrt a = (case a of None \<Rightarrow> None | Some x \<Rightarrow> Some (if x < 0 then 0 else rnd (sqrt x)))"

text \<open>\<^verbatim>\<open>.rolling(window=w, min_periods=minp).std()\<close>.\<close>

definition rolling_std :: "nat \<Rightarrow> nat \<Rightarrow> float64 list \<Rightarrow> float64 list" where
  "rolling_std w minp xs =
     map (\<lambda>i. if w = 0 then None else zsqrt (calc_var minp (var_state w xs i))) [0..<length xs]"

section \<open>Readings and the rolling band\<close>

text \<open>
  One row of the loaded table; the column \<open>city\<close> is shared with the per-city result rows
  of the batch harness. The timestamp is an instant in nanoseconds since the epoch,
  or NaT (\<open>None\<close>) where \<^verbatim>\<open>to_datetime(errors="coerce")\<close> could not parse it; the
  temperature may be NaN; the season label may be missing.
\<close>

record keyed =
  city :: string

record reading = keyed +
  timestamp :: "int option"
  temperature :: float64
  season :: "string option"

text \<open>
  The frame that \<^verbatim>\<open>add_rolling\<close> returns: the rows of its argument and the five columns
  it adds, each as long as the frame.
\<close>

record frame =
  rows :: "reading list"

record rolling_frame = frame +
  roll_mean :: "float64 list"
  roll_std :: "float64 list"
  roll_upper :: "float64 list"
  roll_lower :: "float64 list"
  roll_anomaly :: "bool list"

text \<open>
  \<^verbatim>\<open>add_rolling\<close> of \<^verbatim>\<open>utils.py\<close>. The constructor of the rolling object rejects a
  negative window with \<^verbatim>\<open>ValueError\<close>; on a series that is not empty, a window that does
  not fit a signed 64-bit integer makes the computation of the window bounds raise
  \<^verbatim>\<open>OverflowError\<close>.
\<close>

definition add_rolling :: "reading list \<Rightarrow> int \<Rightarrow> error + rolling_frame" where
  "add_rolling df_city window =
     (if window < 0 then Inl ValueError
      else if df_city \<noteq> [] \<and> 2 ^ 63 \<le> window then Inl OverflowError
      else
        let t = map temperature df_city;
            rm = rolling_mean (nat window) (nat window) t;
            rs = rolling_std (nat window) (nat window) t;
            ru = map2 fadd rm (map (fmul (Some 2)) rs);
            rl = map2 fsub rm (map (fmul (Some 2)) rs)
        in Inr \<lparr>rows = df_city, roll_mean = rm, roll_std = rs, roll_upper = ru, roll_lower = rl,
                roll_anomaly = map2 (\<and>) (map notna rm) (map2 (\<or>) (map2 fgt t ru) (map2 flt t rl))\<rparr>)"

subsection \<open>The rolling band as the specification words it\<close>

text \<open>
  The temperatures at positions \<open>i - w + 1\<close> to \<open>i\<close>; their mean; their sample standard
  deviation with the divisor \<open>N - 1\<close>, undefined for fewer than two values; both undefined
  when a value of the window is; and "strictly outside the band", false when a bound is
  undefined.
\<close>

definition spec_window :: "float64 list \<Rightarrow> nat \<Rightarrow> nat \<Rightarrow> float64 list" where
  "spec_window ts w i = map (\<lambda>k. ts ! k) [Suc i - w..<Suc i]"




section \<open>Seasonal statistics and the seasonal band\<close>

text \<open>
  \<^verbatim>\<open>groupby("season")["temperature"]\<close> with the aggregations \<^verbatim>\<open>mean\<close> and \<^verbatim>\<open>std\<close>: one
  row per distinct non-null season label, in ascending order of the label; the mean of the
  valid temperatures of the group (NaN when there is none) and their standard deviation
  with one delta degree of freedom (NaN when there are fewer than two).
\<close>

type_synonym season_stats = "(string option \<times> float64 \<times> float64) list"

definition group_mean :: "float64 list \<Rightarrow> float64" where
  "group_mean xs = (let obs = dropna xs in if obs = [] then None else Some (obs_mean obs))"

definition group_std :: "float64 list \<Rightarrow> float64" where
  "group_std xs = (let obs = dropna xs in if length obs \<le> 1 then None else Some (sqrt (obs_var obs)))"

definition group_keys :: "reading list \<Rightarrow> string list" where
  "group_keys df = sort (remdups (dropna (map season df)))"

definition groupby_season :: "reading list \<Rightarrow> season_stats" where
  "groupby_season df =
     map (\<lambda>k. let g = map temperature (filter (\<lambda>r. season r = Some k) df)
              in (Some k, group_mean g, group_std g))
       (group_keys df)"

text \<open>\<^verbatim>\<open>season_stats_for_city\<close> of \<^verbatim>\<open>utils.py\<close>; \<^verbatim>\<open>reset_index\<close> turns the group label into the column \<open>season\<close>.\<close>

definition season_stats_for_city :: "reading list \<Rightarrow> season_stats" where
  "season_stats_for_city df_city = groupby_season df_city"

text \<open>
  The left join on the season label: every row of the left frame, in order, once for each
  row of the statistics with the same label (null labels match each other), and once with
  NaN statistics when there is none.
\<close>

definition merge_left :: "reading list \<Rightarrow> season_stats \<Rightarrow> (reading \<times> float64 \<times> float64) list" where
  "merge_left df stats =
     concat (map (\<lambda>r. case filter (\<lambda>st. fst st = season r) stats of
                         [] \<Rightarrow> [(r, None, None)]
                       | ms \<Rightarrow> map (\<lambda>st. (r, fst (snd st), snd (snd st))) ms) df)"

record season_frame = frame +
  season_mean :: "float64 list"
  season_std :: "float64 list"
  season_upper :: "float64 list"
  season_lower :: "float64 list"
  season_anomaly :: "bool list"

text \<open>\<^verbatim>\<open>add_season_bounds\<close> of \<^verbatim>\<open>utils.py\<close>.\<close>

definition add_season_bounds :: "reading list \<Rightarrow> season_stats \<Rightarrow> season_frame" where
  "add_season_bounds df_city season_stats =
     (let d = merge_left df_city season_stats;
          t = map (\<lambda>x. temperature (fst x)) d;
          sm = map (\<lambda>x. fst (snd x)) d;
          ss = map (\<lambda>x. snd (snd x)) d;
          su = map2 fadd sm (map (fmul (Some 2)) ss);
          sl = map2 fsub sm (map (fmul (Some 2)) ss)
      in \<lparr>rows = map fst d, season_mean = sm, season_std = ss, season_upper = su, season_lower = sl,
          season_anomaly = map2 (\<or>) (map2 fgt t su) (map2 flt t sl)\<rparr>)"

section \<open>Per-city analysis of the batch harness\<close>

text \<open>
  \<^verbatim>\<open>sort_values("timestamp")\<close>: the rows with a timestamp in ascending order, then the rows
  whose timestamp is NaT, in their order. The default sorting algorithm is not stable: the
  order of rows with equal timestamps is the library's choice, a function of the column of
  keys. The parameter \<open>tie\<close> stands for it: for the keys and a position among the rows with
  a timestamp, the rank that orders these rows where their timestamps are equal (rows of
  equal rank keep their order).
\<close>

definition sort_values_timestamp :: "(int list \<Rightarrow> nat \<Rightarrow> nat) \<Rightarrow> reading list \<Rightarrow> reading list" where
  "sort_values_timestamp tie df =
     (let valid = filter (\<lambda>r. timestamp r \<noteq> None) df;
          keys = map (\<lambda>r. the (timestamp r)) valid
      in map snd
           (sort_key (\<lambda>p. the (timestamp (snd p)))
              (sort_key (\<lambda>p. tie keys (fst p)) (zip [0..<length valid] valid)))
         @ filter (\<lambda>r. timestamp r = None) df)"

text \<open>\<^verbatim>\<open>Series.min()\<close> and \<^verbatim>\<open>Series.max()\<close> skip NaT and give NaT for a column without a valid cell.\<close>

definition series_min :: "int option list \<Rightarrow> int option" where
  "series_min xs = (case dropna xs of [] \<Rightarrow> None | v # vs \<Rightarrow> Some (fold min vs v))"

definition series_max :: "int option list \<Rightarrow> int option" where
  "series_max xs = (case dropna xs of [] \<Rightarrow> None | v # vs \<Rightarrow> Some (fold max vs v))"

text \<open>\<^verbatim>\<open>.date()\<close>: the calendar day of an instant, counted in days since the epoch; NaT stays NaT.\<close>

definition date :: "int option \<Rightarrow> int option" where
  "date ts = map_option (\<lambda>t. t div 86400000000000) ts"

definition count_true :: "bool list \<Rightarrow> nat" where
  "count_true bs = length (filter (\<lambda>b. b) bs)"

record city_stats = keyed +
  n_days :: nat
  period_start :: "int option"
  period_end :: "int option"
  rolling_anomalies :: nat
  season_anomalies :: nat

text \<open>
  \<^verbatim>\<open>analyze_city_block\<close> of \<^verbatim>\<open>utils.py\<close>; the rolling calls raise as in \<^verbatim>\<open>add_rolling\<close>.
\<close>

definition analyze_city_block ::
  "(int list \<Rightarrow> nat \<Rightarrow> nat) \<Rightarrow> string \<Rightarrow> reading list \<Rightarrow> int \<Rightarrow> error + city_stats" where
  "analyze_city_block tie c df_city window =
     (let d = sort_values_timestamp tie df_city in
      if window < 0 then Inl ValueError
      else if d \<noteq> [] \<and> 2 ^ 63 \<le> window then Inl OverflowError
      else
        let t = map temperature d;
            rm = rolling_mean (nat window) (nat window) t;
            rs = rolling_std (nat window) (nat window) t;
            upper = map2 fadd rm (map (fmul (Some 2)) rs);
            lower = map2 fsub rm (map (fmul (Some 2)) rs);
            roll_anoms = count_true (map2 (\<and>) (map notna rm) (map2 (\<or>) (map2 fgt t upper) (map2 flt t lower)));
            stats = groupby_season d;
            dj = merge_left d stats;
            tj = map (\<lambda>x. temperature (fst x)) dj;
            season_upper = map2 fadd (map (\<lambda>x. fst (snd x)) dj) (map (fmul (Some 2)) (map (\<lambda>x. snd (snd x)) dj));
            season_lower = map2 fsub (map (\<lambda>x. fst (snd x)) dj) (map (fmul (Some 2)) (map (\<lambda>x. snd (snd x)) dj));
            season_anoms = count_true (map2 (\<or>) (map2 fgt tj season_upper) (map2 flt tj season_lower))
        in Inr \<lparr>city = c, n_days = length dj,
                period_start = date (series_min (map (\<lambda>x. timestamp (fst x)) dj)),
                period_end = date (series_max (map (\<lambda>x. timestamp (fst x)) dj)),
                rolling_anomalies = roll_anoms, season_anomalies = season_anoms\<rparr>)"

section \<open>Batch benchmark harness\<close>

text \<open>
  A Python dictionary as an association list in insertion order: assigning to a key that
  is present replaces the value where the key stands, a new key goes to the end.
\<close>

fun dict_set :: "('k \<times> 'v) list \<Rightarrow> 'k \<Rightarrow> 'v \<Rightarrow> ('k \<times> 'v) list" where
  "dict_set [] k v = [(k, v)]"
| "dict_set ((k', v') # kvs) k v =
     (if k' = k then (k, v) # kvs else (k', v') # dict_set kvs k v)"

definition city_groups :: "reading list \<Rightarrow> string list \<Rightarrow> (string \<times> reading list) list" where
  "city_groups df cities = fold (\<lambda>c g. dict_set g c (filter (\<lambda>r. city r = c) df)) cities []"

text \<open>
  The sequential strategy: the loop over the groups; an exception of
  \<^verbatim>\<open>analyze_city_block\<close> is not caught and ends the loop.
\<close>

fun run_sequential ::
  "(int list \<Rightarrow> nat \<Rightarrow> nat) \<Rightarrow> (string \<times> reading list) list \<Rightarrow> int \<Rightarrow> city_stats list \<Rightarrow>
     error + city_stats list" where
  "run_sequential tie [] window seq_results = Inr seq_results"
| "run_sequential tie ((c, dcity) # gs) window seq_results =
     (case analyze_city_block tie c dcity window of
        Inl e \<Rightarrow> Inl e
      | Inr r \<Rightarrow> run_sequential tie gs window (seq_results @ [r]))"

text \<open>
  The parallel strategy. \<^verbatim>\<open>ThreadPoolExecutor\<close> rejects a pool size below one with
  \<^verbatim>\<open>ValueError\<close>. One future per group holds the outcome of its task;
  \<^verbatim>\<open>as_completed\<close> yields the futures in the order in which they finish, which the
  scheduler decides: \<open>order\<close> lists the positions of the futures in that order.
  \<^verbatim>\<open>f.result()\<close> re-raises the exception of a failed task.
\<close>

fun collect_results :: "(error + city_stats) list \<Rightarrow> city_stats list \<Rightarrow> error + city_stats list" where
  "collect_results [] par_results = Inr par_results"
| "collect_results (f # fs) par_results =
     (case f of Inl e \<Rightarrow> Inl e | Inr r \<Rightarrow> collect_results fs (par_results @ [r]))"

definition run_parallel ::
  "(int list \<Rightarrow> nat \<Rightarrow> nat) \<Rightarrow> (string \<times> reading list) list \<Rightarrow> int \<Rightarrow> int \<Rightarrow> nat list \<Rightarrow>
     error + city_stats list" where
  "run_parallel tie groups window workers order =
     (if workers \<le> 0 then Inl ValueError
      else
        let futures = map (\<lambda>(c, dcity). analyze_city_block tie c dcity window) groups
        in collect_results (map (\<lambda>i. futures ! i) order) [])"

text \<open>
  \<^verbatim>\<open>pd.DataFrame(par_results).sort_values("city")\<close>: a frame built from an empty list
  has no column \<open>city\<close>, and sorting by it raises \<^verbatim>\<open>KeyError\<close>.
\<close>

definition sort_values_city :: "city_stats list \<Rightarrow> error + city_stats list" where
  "sort_values_city rs = (if rs = [] then Inl KeyError else Inr (sort_key city rs))"

text \<open>The four readings of \<^verbatim>\<open>time.perf_counter()\<close> that the harness takes.\<close>

record clock =
  seq_start :: real
  seq_end :: real
  par_start :: real
  par_end :: real

record bench_result =
  t_seq :: real
  t_par :: real
  speedup :: "real option"
  results_df :: "city_stats list"

text \<open>Division of two floats raises \<^verbatim>\<open>ZeroDivisionError\<close> when the divisor is zero.\<close>

definition truediv :: "real \<Rightarrow> real \<Rightarrow> error + real" where
  "truediv a b = (if b = 0 then Inl ZeroDivisionError else Inr (a / b))"

text \<open>\<^verbatim>\<open>benchmark_historical\<close> of \<^verbatim>\<open>utils.py\<close>; the entries of the returned dictionary are evaluated in the order in which they are written.\<close>

definition benchmark_historical ::
  "(int list \<Rightarrow> nat \<Rightarrow> nat) \<Rightarrow> reading list \<Rightarrow> string list \<Rightarrow> int \<Rightarrow> int \<Rightarrow> clock \<Rightarrow> nat list \<Rightarrow>
     error + bench_result" where
  "benchmark_historical tie df cities window workers clk order =
     (let groups = city_groups df cities in
      case run_sequential tie groups window [] of
        Inl e \<Rightarrow> Inl e
      | Inr seq_results \<Rightarrow>
          let tseq = seq_end clk - seq_start clk in
          (case run_parallel tie groups window workers order of
             Inl e \<Rightarrow> Inl e
           | Inr par_results \<Rightarrow>
               let tpar = par_end clk - par_start clk in
               (case (if tpar > 0 then map_sum id Some (truediv tseq tpar) else Inr None) of
                  Inl e \<Rightarrow> Inl e
                | Inr sp \<Rightarrow>
                    (case sort_values_city par_results of
                       Inl e \<Rightarrow> Inl e
                     | Inr sorted_results \<Rightarrow>
                         Inr \<lparr>t_seq = tseq, t_par = tpar, speedup = sp,
                              results_df = sorted_results\<rparr>))))"

section \<open>Live-weather fan-out harness\<close>

text \<open>A parsed JSON payload; an object is the list of the items of a dictionary, whose keys are distinct.\<close>

datatype json =
  JNull | JBool bool | JInt int | JFloat real | JStr string
  | JArr "json list" | JObj "(string \<times> json) list"

text \<open>\<^verbatim>\<open>str(v) == "200"\<close> for the value \<open>v\<close> that \<^verbatim>\<open>data.get("cod")\<close> returns (\<open>None\<close> when the key is absent).\<close>

fun str_is_200 :: "json option \<Rightarrow> bool" where
  "str_is_200 (Some (JStr s)) = (s = ''200'')"
| "str_is_200 (Some (JInt n)) = (n = 200)"
| "str_is_200 _ = False"

text \<open>\<^verbatim>\<open>v["temp"]\<close>: a dictionary looks the key up, every other value cannot be indexed by a string.\<close>

fun subscript :: "json \<Rightarrow> string \<Rightarrow> error + json" where
  "subscript (JObj kvs) k = (case map_of kvs k of None \<Rightarrow> Inl KeyError | Some v \<Rightarrow> Inr v)"
| "subscript _ k = Inl TypeError"

text \<open>
  \<^verbatim>\<open>float(v)\<close>: an integer is rounded to the nearest binary64 number, and one that rounds
  beyond the largest raises \<^verbatim>\<open>OverflowError\<close>; the parser of numerals in strings is a
  parameter.
\<close>

fun py_float :: "(string \<Rightarrow> real option) \<Rightarrow> json \<Rightarrow> error + real" where
  "py_float parse (JInt n) =
     (if 2 ^ 1024 \<le> \<bar>rnd (real_of_int n)\<bar> then Inl OverflowError else Inr (rnd (real_of_int n)))"
| "py_float parse (JFloat x) = Inr x"
| "py_float parse (JBool b) = Inr (if b then 1 else 0)"
| "py_float parse (JStr s) = (case parse s of None \<Rightarrow> Inl ValueError | Some x \<Rightarrow> Inr x)"
| "py_float parse _ = Inl TypeError"

text \<open>\<^verbatim>\<open>_extract_temp_from_owm_response\<close> of \<^verbatim>\<open>pages/2_Experiments.py\<close>.\<close>

fun extract_temp_from_owm_response :: "(string \<Rightarrow> real option) \<Rightarrow> json \<Rightarrow> error + real" where
  "extract_temp_from_owm_response parse (JObj kvs) =
     (if \<not> str_is_200 (map_of kvs ''cod'') then Inl ValueError
      else case subscript (JObj kvs) ''main'' of
             Inl e \<Rightarrow> Inl e
           | Inr m \<Rightarrow> (case subscript m ''temp'' of Inl e \<Rightarrow> Inl e | Inr t \<Rightarrow> py_float parse t))"
| "extract_temp_from_owm_response parse _ = Inl AttributeError"

text \<open>A row \<^verbatim>\<open>{"city": c, "temp": temp}\<close>; \<open>None\<close> is the marker of a failed city.\<close>

type_synonym weather_row = "string \<times> real option"

text \<open>
  The sequential strategy of the page: one blocking call per city, in input order, inside
  \<^verbatim>\<open>try/except Exception\<close>. The network is a parameter: the outcome of the request for
  a city, an exception or a payload.
\<close>

fun sync_loop ::
  "(string \<Rightarrow> real option) \<Rightarrow> (string \<Rightarrow> error + json) \<Rightarrow> string list \<Rightarrow> weather_row list \<Rightarrow> weather_row list" where
  "sync_loop parse fetch_current_weather_sync [] sync_rows = sync_rows"
| "sync_loop parse fetch_current_weather_sync (c # sel) sync_rows =
     sync_loop parse fetch_current_weather_sync sel
       (sync_rows @
         [case fetch_current_weather_sync c of
            Inl e \<Rightarrow> (c, None)
          | Inr data \<Rightarrow>
              (case extract_temp_from_owm_response parse data of
                 Inl e \<Rightarrow> (c, None)
               | Inr temp \<Rightarrow> (c, Some temp))])"

text \<open>
  \<^verbatim>\<open>_async_many\<close> of the page: \<^verbatim>\<open>gather(..., return_exceptions=True)\<close> returns the outcome
  of every task, in the order of the tasks, an exception as a value.
\<close>

definition async_many ::
  "(string \<Rightarrow> real option) \<Rightarrow> (string \<Rightarrow> error + json) \<Rightarrow> string list \<Rightarrow> weather_row list" where
  "async_many parse fetch_current_weather_async cities_list =
     (let results = map fetch_current_weather_async cities_list
      in map (\<lambda>(c, r). case r of
                         Inl e \<Rightarrow> (c, None)
                       | Inr data \<Rightarrow>
                           (case extract_temp_from_owm_response parse data of
                              Inl e \<Rightarrow> (c, None)
                            | Inr temp \<Rightarrow> (c, Some temp)))
           (zip cities_list results))"

text \<open>
  \<^verbatim>\<open>fetch_many_cities_async\<close> of \<^verbatim>\<open>utils.py\<close>. The session and the reading of a body are
  parameters: \<open>session_get\<close> gives, for the request of a city, the message of the exception
  it ended with or a response, and \<open>read_json\<close> parses the body of a response or raises.
  The exceptions of the requests are gathered as values; an exception while a body is read
  is not caught.
\<close>

fun read_responses ::
  "('resp \<Rightarrow> error + json) \<Rightarrow> (string + 'resp) list \<Rightarrow> json list \<Rightarrow> error + json list" where
  "read_responses read_json [] results = Inr results"
| "read_responses read_json (resp # responses) results =
     (case resp of
        Inl msg \<Rightarrow>
          read_responses read_json responses
            (results @ [JObj [(''cod'', JStr ''error''), (''message'', JStr msg)]])
      | Inr rsp \<Rightarrow>
          (case read_json rsp of
             Inl e \<Rightarrow> Inl e
           | Inr data \<Rightarrow> read_responses read_json responses (results @ [data])))"

definition fetch_many_cities_async ::
  "(string \<Rightarrow> string + 'resp) \<Rightarrow> ('resp \<Rightarrow> error + json) \<Rightarrow> string list \<Rightarrow> error + json list" where
  "fetch_many_cities_async session_get read_json cities =
     (let responses = map session_get cities in read_responses read_json responses [])"

text \<open>
  The speed-up metric of the page: the quotient printed with two decimals, or a dash.
\<close>

datatype metric_text = Formatted real | Dash

definition speedup_metric :: "real \<Rightarrow> real \<Rightarrow> error + metric_text" where
  "speedup_metric t_sync t_async =
     (if t_async > 0 then map_sum id Formatted (truediv t_sync t_async) else Inr Dash)"

section \<open>Auxiliary notions for the proofs\<close>

text \<open>The number of valid observations at the positions \<open>i - w + 1\<close> to \<open>i\<close> of a series.\<close>

definition valid_count :: "nat \<Rightarrow> float64 list \<Rightarrow> nat \<Rightarrow> nat" where
  "valid_count w xs i = length (dropna (spec_window xs w i))"

text \<open>The exception with which the rolling calls reject a window.\<close>

definition window_error :: "int \<Rightarrow> error" where
  "window_error window = (if window < 0 then ValueError else OverflowError)"

text \<open>The outcomes of the tasks of the batch harness, one per group, in the order of the groups.\<close>

definition futures_of ::
  "(int list \<Rightarrow> nat \<Rightarrow> nat) \<Rightarrow> (string \<times> reading list) list \<Rightarrow> int \<Rightarrow> (error + city_stats) list" where
  "futures_of tie groups window = map (\<lambda>(c, dcity). analyze_city_block tie c dcity window) groups"

text \<open>The row that the live-weather harness records for a city, given the outcome of its request.\<close>

definition weather_row_of ::
  "(string \<Rightarrow> real option) \<Rightarrow> (string \<Rightarrow> error + json) \<Rightarrow> string \<Rightarrow> weather_row" where
  "weather_row_of parse fetch c =
     (case fetch c of
        Inl e \<Rightarrow> (c, None)
      | Inr data \<Rightarrow>
          (case extract_temp_from_owm_response parse data of
             Inl e \<Rightarrow> (c, None)
           | Inr temp \<Rightarrow> (c, Some temp)))"

text \<open>The statistics that the join on the season label attaches to a row of the frame \<open>df\<close>.\<close>

definition season_lookup :: "reading list \<Rightarrow> reading \<Rightarrow> float64 \<times> float64" where
  "season_lookup df r =
     (case season r of
        None \<Rightarrow> (None, None)
      | Some k \<Rightarrow> (group_mean (map temperature (filter (\<lambda>r. season r = Some k) df)),
                   group_std (map temperature (filter (\<lambda>r. season r = Some k) df))))"

section \<open>Season assignment\<close>

text \<open>
  \<^verbatim>\<open>get_season_by_month\<close> of \<^verbatim>\<open>utils.py\<close>: three membership tests on tuples of
  month numbers, in the order of the source, and a final fall-through.
\<close>

definition get_season_by_month :: "int \<Rightarrow> string" where
  "get_season_by_month month =
     (if month \<in> set [12, 1, 2] then ''winter''
      else if month \<in> set [3, 4, 5] then ''spring''
      else if month \<in> set [6, 7, 8] then ''summer''
      else ''autumn'')"

section \<open>Properties\<close>

subsection \<open>Season assignment is total\<close>

text \<open>
  C10. Season assignment is total: every integer month is mapped to one of the four season
  names (the model has no failing branch, as the source has no raise), and every month
  outside 1..12, such as 0, 13 or a negative number, is mapped to autumn.
\<close>

theorem get_season_by_month_total:
  "get_season_by_month m \<in> {''winter'', ''spring'', ''summer'', ''autumn''} \<and>
   (m < 1 \<or> 12 < m \<longrightarrow> get_season_by_month m = ''autumn'')"
  by (auto simp: get_season_by_month_def)

theorem get_season_by_month_total_witness:
  "get_season_by_month 13 \<in> {''winter'', ''spring'', ''summer'', ''autumn''} \<and>
   ((13::int) < 1 \<or> (12::int) < 13) \<and> get_season_by_month 13 = ''autumn'' \<and>
   get_season_by_month (- 4) = ''autumn'' \<and> get_season_by_month 0 = ''autumn''"
  using get_season_by_month_total [of 13] get_season_by_month_total [of "- 4"]
    get_season_by_month_total [of 0]
  by simp

subsection \<open>Rounding\<close>

lemma floor_log2_eq:
  assumes "2 powi e \<le> \<bar>x\<bar>" "\<bar>x\<bar> < 2 powi (e + 1)"
  shows "\<lfloor>log 2 \<bar>x\<bar>\<rfloor> = e"
proof -
  have "(0::real) < 2 powi e" by (simp add: zero_less_power_int)
  with assms(1) have pos: "0 < \<bar>x\<bar>" by linarith
  have "(2::real) powr (of_int e) = 2 powi e"
    by (rule powr_real_of_int') simp_all
  moreover have "(2::real) powr (of_int (e + 1)) = 2 powi (e + 1)"
    by (rule powr_real_of_int') simp_all
  ultimately have "2 powr (of_int e) \<le> \<bar>x\<bar> \<and> \<bar>x\<bar> < 2 powr (of_int e + 1)"
    using assms by simp
  then show ?thesis
    using floor_log_eq_powr_iff [of "\<bar>x\<bar>" 2 e] pos by simp
qed

lemma rnd_near:
  assumes "2 powi e \<le> \<bar>x\<bar>" "\<bar>x\<bar> < 2 powi (e + 1)" "- 1022 \<le> e"
    and "round_even (x / 2 powi (e - 52)) = m"
  shows "rnd x = of_int m * 2 powi (e - 52)"
proof -
  have "(0::real) < 2 powi e" by (simp add: zero_less_power_int)
  with assms(1) have "0 < \<bar>x\<bar>" by linarith
  then have "x \<noteq> 0" by simp
  moreover have "ulp_exponent x = e - 52"
    using floor_log2_eq [OF assms(1,2)] assms(3) by (simp add: ulp_exponent_def)
  ultimately show ?thesis using assms(4) by (simp add: rnd_def)
qed

lemma round_even_of_int [simp]: "round_even (of_int m) = m"
  by (simp add: round_even_def)

lemma rnd_0 [simp]: "rnd 0 = 0"
  by (simp add: rnd_def)

subsection \<open>Rolling band\<close>

lemma take_as_map_nth:
  assumes "n \<le> length xs"
  shows "take n xs = map (\<lambda>k. xs ! k) [0..<n]"
proof -
  have "take n xs = take n (map (\<lambda>k. xs ! k) [0..<length xs])"
    by (simp only: map_nth)
  also have "\<dots> = map (\<lambda>k. xs ! k) (take n [0..<length xs])"
    by (simp only: take_map)
  also have "take n [0..<length xs] = [0..<n]"
    using assms by (simp del: upt_Suc)
  finally show ?thesis .
qed

lemma window_at_eq_spec:
  assumes "i < length xs"
  shows "window_at w xs i = spec_window xs w i"
proof -
  have "take (Suc i) xs = map (\<lambda>k. xs ! k) [0..<Suc i]"
    using assms by (intro take_as_map_nth) simp
  then show ?thesis
    by (simp add: window_at_def spec_window_def drop_map del: upt_Suc)
qed

lemma length_spec_window: "length (spec_window xs w i) = Suc i - (Suc i - w)"
  by (simp add: spec_window_def del: upt_Suc)

lemma length_dropna_le: "length (dropna as) \<le> length as"
  by (induction as) (auto split: option.splits)

lemma dropna_append [simp]: "dropna (as @ bs) = dropna as @ dropna bs"
  by (induction as) (auto split: option.splits)




lemma length_window_at: "i < length xs \<Longrightarrow> length (window_at w xs i) = min w (Suc i)"
  by (auto simp: window_at_def min_def)

text \<open>The window slides: the cell that leaves, the cell that enters.\<close>

lemma spec_window_Suc_grow:
  assumes "Suc i < w"
  shows "spec_window xs w (Suc i) = spec_window xs w i @ [xs ! Suc i]"
  using assms by (simp add: spec_window_def)

lemma spec_window_Suc_slide:
  assumes "w \<le> Suc i" "0 < w"
  shows "xs ! (Suc i - w) # spec_window xs w (Suc i) = spec_window xs w i @ [xs ! Suc i]"
proof -
  let ?a = "Suc i - w"
  have a: "Suc (Suc i) - w = Suc ?a" "?a \<le> Suc i" "?a < Suc (Suc i)" using assms by simp_all
  have 1: "[?a..<Suc (Suc i)] = ?a # [Suc ?a..<Suc (Suc i)]"
    using a(3) by (rule upt_conv_Cons)
  have 2: "[?a..<Suc (Suc i)] = [?a..<Suc i] @ [Suc i]"
    using a(2) by (rule upt_Suc_append)
  have "map (\<lambda>k. xs ! k) (?a # [Suc ?a..<Suc (Suc i)]) = map (\<lambda>k. xs ! k) ([?a..<Suc i] @ [Suc i])"
    using 1 2 by simp
  then show ?thesis
    unfolding spec_window_def a(1) by simp
qed

lemma spec_window_first:
  assumes "w \<le> Suc i" "0 < w"
  shows "spec_window xs w i = xs ! (Suc i - w) # map (\<lambda>k. xs ! k) [Suc (Suc i - w)..<Suc i]"
proof -
  have "Suc i - w < Suc i" using assms by simp
  then have "[Suc i - w..<Suc i] = (Suc i - w) # [Suc (Suc i - w)..<Suc i]"
    by (rule upt_conv_Cons)
  then show ?thesis unfolding spec_window_def by simp
qed

lemma valid_count_0: "valid_count w xs 0 = (if 0 < w \<and> xs ! 0 \<noteq> None then 1 else 0)"
  by (cases "xs ! 0") (auto simp: valid_count_def spec_window_def)

lemma valid_count_Suc:
  assumes "0 < w"
  shows "valid_count w xs (Suc i) + (if w \<le> Suc i \<and> xs ! (Suc i - w) \<noteq> None then 1 else 0)
           = valid_count w xs i + (if xs ! Suc i \<noteq> None then 1 else 0)"
proof (cases "w \<le> Suc i")
  case True
  have "length (dropna (xs ! (Suc i - w) # spec_window xs w (Suc i)))
        = length (dropna (spec_window xs w i @ [xs ! Suc i]))"
    by (simp only: spec_window_Suc_slide [OF True assms])
  then show ?thesis using True
    by (cases "xs ! (Suc i - w)"; cases "xs ! Suc i") (simp_all add: valid_count_def)
next
  case False
  then have "Suc i < w" by simp
  from spec_window_Suc_grow [OF this, of xs] False show ?thesis
    by (cases "xs ! Suc i") (simp_all add: valid_count_def)
qed

lemma valid_count_leaving:
  assumes "w \<le> Suc i" "0 < w" "xs ! (Suc i - w) \<noteq> None"
  shows "0 < valid_count w xs i"
  using assms(3) unfolding valid_count_def spec_window_first [OF assms(1,2)]
  by (cases "xs ! (Suc i - w)") simp_all

lemma nobs_add_mean: "nobs (add_mean v st) = nobs st + (if v \<noteq> None then 1 else 0)"
  by (cases v) (simp_all add: add_mean_def Let_def)

lemma nobs_remove_mean: "nobs (remove_mean v st) = nobs st - (if v \<noteq> None then 1 else 0)"
  by (cases v) (simp_all add: remove_mean_def Let_def)

lemma nobs_add_var: "nobs (add_var v st) = nobs st + (if v \<noteq> None then 1 else 0)"
  by (cases v) (simp_all add: add_var_def Let_def)

lemma nobs_remove_var: "nobs (remove_var v st) = nobs st - (if v \<noteq> None then 1 else 0)"
  by (cases v) (simp_all add: remove_var_def Let_def)

lemma nobs_mean_state:
  assumes "0 < w"
  shows "nobs (mean_state w xs i) = valid_count w xs i"
proof (induction i)
  case 0
  show ?case using assms by (simp add: nobs_add_mean valid_count_0)
next
  case (Suc i)
  show ?case
    using valid_count_Suc [OF assms, of xs i] valid_count_leaving [OF _ assms, of i xs] Suc
    by (auto simp: nobs_add_mean nobs_remove_mean split: if_splits)
qed

lemma nobs_var_state:
  assumes "0 < w"
  shows "nobs (var_state w xs i) = valid_count w xs i"
proof (induction i)
  case 0
  show ?case using assms by (simp add: nobs_add_var valid_count_0)
next
  case (Suc i)
  show ?case
    using valid_count_Suc [OF assms, of xs i] valid_count_leaving [OF _ assms, of i xs] Suc
    by (auto simp: nobs_add_var nobs_remove_var split: if_splits)
qed

text \<open>Once an observation has been added, the value last added is a number.\<close>

lemma prev_value_add_mean:
  "(0 < nobs st \<longrightarrow> prev_value st \<noteq> None) \<Longrightarrow>
   0 < nobs (add_mean v st) \<longrightarrow> prev_value (add_mean v st) \<noteq> None"
  by (cases v) (simp_all add: add_mean_def Let_def)

lemma prev_value_remove_mean:
  "(0 < nobs st \<longrightarrow> prev_value st \<noteq> None) \<Longrightarrow>
   0 < nobs (remove_mean v st) \<longrightarrow> prev_value (remove_mean v st) \<noteq> None"
  by (cases v) (simp_all add: remove_mean_def Let_def)

lemma prev_value_mean_state:
  "0 < nobs (mean_state w xs i) \<longrightarrow> prev_value (mean_state w xs i) \<noteq> None"
proof (induction i)
  case 0
  show ?case by (cases "xs ! 0") (simp_all add: add_mean_def Let_def)
next
  case (Suc i)
  show ?case
    unfolding mean_state.simps
    by (intro prev_value_add_mean) (use Suc prev_value_remove_mean in auto)
qed

lemma calc_mean_defined:
  assumes "0 < nobs st \<longrightarrow> prev_value st \<noteq> None"
  shows "calc_mean minp st \<noteq> None \<longleftrightarrow> minp \<le> nobs st \<and> 0 < nobs st"
  using assms by (auto simp: calc_mean_def Let_def)

lemma calc_var_defined:
  "zsqrt (calc_var minp st) \<noteq> None \<longleftrightarrow> max minp 1 \<le> nobs st \<and> 1 < nobs st"
  by (auto simp: calc_var_def zsqrt_def)

lemma length_rolling_mean [simp]: "length (rolling_mean w m xs) = length xs"
  by (simp add: rolling_mean_def)

lemma length_rolling_std [simp]: "length (rolling_std w m xs) = length xs"
  by (simp add: rolling_std_def)

lemma rolling_mean_nth:
  "i < length xs \<Longrightarrow> rolling_mean w m xs ! i =
     (if w = 0 then None else calc_mean m (mean_state w xs i))"
  by (simp add: rolling_mean_def)

lemma rolling_std_nth:
  "i < length xs \<Longrightarrow> rolling_std w m xs ! i =
     (if w = 0 then None else zsqrt (calc_var m (var_state w xs i)))"
  by (simp add: rolling_std_def)

lemma rolling_mean_defined:
  assumes "i < length xs"
  shows "rolling_mean w m xs ! i \<noteq> None \<longleftrightarrow>
           0 < w \<and> m \<le> valid_count w xs i \<and> 0 < valid_count w xs i"
proof (cases "w = 0")
  case True
  then show ?thesis using assms by (simp add: rolling_mean_nth)
next
  case False
  then have w: "0 < w" by simp
  show ?thesis
    using assms False calc_mean_defined [OF prev_value_mean_state, of m w xs i]
    by (simp add: rolling_mean_nth nobs_mean_state [OF w])
qed

lemma rolling_std_defined:
  assumes "i < length xs"
  shows "rolling_std w m xs ! i \<noteq> None \<longleftrightarrow>
           0 < w \<and> max m 1 \<le> valid_count w xs i \<and> 1 < valid_count w xs i"
proof (cases "w = 0")
  case True
  then show ?thesis using assms by (simp add: rolling_std_nth)
next
  case False
  then have w: "0 < w" by simp
  show ?thesis
    using assms False calc_var_defined [of m "var_state w xs i"]
    by (simp add: rolling_std_nth nobs_var_state [OF w])
qed

lemma valid_count_le: "valid_count w xs i \<le> min w (Suc i)"
  using length_dropna_le [of "spec_window xs w i"]
  by (simp add: valid_count_def length_spec_window min_def) linarith


lemma add_rolling_Inr:
  assumes "0 \<le> w" "w < 2 ^ 63 \<or> df = []"
  shows "\<exists>d. add_rolling df w = Inr d \<and> rows d = df \<and>
     roll_mean d = rolling_mean (nat w) (nat w) (map temperature df) \<and>
     roll_std d = rolling_std (nat w) (nat w) (map temperature df) \<and>
     roll_upper d = map2 fadd (roll_mean d) (map (fmul (Some 2)) (roll_std d)) \<and>
     roll_lower d = map2 fsub (roll_mean d) (map (fmul (Some 2)) (roll_std d)) \<and>
     roll_anomaly d = map2 (\<and>) (map notna (roll_mean d))
        (map2 (\<or>) (map2 fgt (map temperature df) (roll_upper d)) (map2 flt (map temperature df) (roll_lower d)))"
  using assms by (auto simp add: add_rolling_def Let_def)

lemma add_rolling_overflow:
  "2 ^ 63 \<le> w \<Longrightarrow> df \<noteq> [] \<Longrightarrow> add_rolling df w = Inl OverflowError"
  by (simp add: add_rolling_def)

lemma add_rolling_columns_nth:
  assumes "add_rolling df w = Inr d" "i < length df"
  shows "roll_mean d ! i = rolling_mean (nat w) (nat w) (map temperature df) ! i"
    and "roll_std d ! i = rolling_std (nat w) (nat w) (map temperature df) ! i"
    and "roll_upper d ! i = fadd (roll_mean d ! i) (fmul (Some 2) (roll_std d ! i))"
    and "roll_lower d ! i = fsub (roll_mean d ! i) (fmul (Some 2) (roll_std d ! i))"
    and "roll_anomaly d ! i =
           (roll_mean d ! i \<noteq> None \<and>
            (fgt (temperature (df ! i)) (roll_upper d ! i) \<or> flt (temperature (df ! i)) (roll_lower d ! i)))"
    and "length (roll_anomaly d) = length df"
proof -
  have d: "d = \<lparr>rows = df,
      roll_mean = rolling_mean (nat w) (nat w) (map temperature df),
      roll_std = rolling_std (nat w) (nat w) (map temperature df),
      roll_upper = map2 fadd (rolling_mean (nat w) (nat w) (map temperature df))
         (map (fmul (Some 2)) (rolling_std (nat w) (nat w) (map temperature df))),
      roll_lower = map2 fsub (rolling_mean (nat w) (nat w) (map temperature df))
         (map (fmul (Some 2)) (rolling_std (nat w) (nat w) (map temperature df))),
      roll_anomaly = map2 (\<and>) (map notna (rolling_mean (nat w) (nat w) (map temperature df)))
        (map2 (\<or>)
          (map2 fgt (map temperature df)
            (map2 fadd (rolling_mean (nat w) (nat w) (map temperature df))
              (map (fmul (Some 2)) (rolling_std (nat w) (nat w) (map temperature df)))))
          (map2 flt (map temperature df)
            (map2 fsub (rolling_mean (nat w) (nat w) (map temperature df))
              (map (fmul (Some 2)) (rolling_std (nat w) (nat w) (map temperature df))))))\<rparr>"
    using assms(1) by (auto simp: add_rolling_def Let_def split: if_splits)
  show "roll_mean d ! i = rolling_mean (nat w) (nat w) (map temperature df) ! i"
    and "roll_std d ! i = rolling_std (nat w) (nat w) (map temperature df) ! i"
    and "roll_upper d ! i = fadd (roll_mean d ! i) (fmul (Some 2) (roll_std d ! i))"
    and "roll_lower d ! i = fsub (roll_mean d ! i) (fmul (Some 2) (roll_std d ! i))"
    and "roll_anomaly d ! i =
           (roll_mean d ! i \<noteq> None \<and>
            (fgt (temperature (df ! i)) (roll_upper d ! i) \<or> flt (temperature (df ! i)) (roll_lower d ! i)))"
    and "length (roll_anomaly d) = length df"
    using assms(2) by (simp_all add: d notna_def)
qed


text \<open>
  C2, as the code has it. For a window \<open>1 \<le> w < 2\<^sup>6\<^sup>3\<close>, the first \<open>w - 1\<close> rows of the rolling
  band have undefined \<open>roll_mean\<close> and \<open>roll_std\<close> and no anomaly flag, and when \<open>w\<close> exceeds
  the length of the series every row of the band is undefined and no anomaly is reported.
  For a window of \<open>2\<^sup>6\<^sup>3\<close> or more and a series that is not empty the rolling call raises
  \<^verbatim>\<open>OverflowError\<close>.
\<close>

theorem add_rolling_prefix_undefined:
  assumes "1 \<le> w"
  shows "(w < 2 ^ 63 \<longrightarrow>
      (\<exists>d. add_rolling df w = Inr d \<and> length (roll_anomaly d) = length df \<and>
         (\<forall>i<length df. int i < w - 1 \<longrightarrow>
            roll_mean d ! i = None \<and> roll_std d ! i = None \<and> \<not> roll_anomaly d ! i) \<and>
         (int (length df) < w \<longrightarrow>
            (\<forall>i<length df. roll_mean d ! i = None \<and> roll_std d ! i = None \<and>
               roll_upper d ! i = None \<and> roll_lower d ! i = None) \<and>
            True \<notin> set (roll_anomaly d)))) \<and>
     (2 ^ 63 \<le> w \<and> df \<noteq> [] \<longrightarrow> add_rolling df w = Inl OverflowError)"
proof (intro conjI impI)
  assume "2 ^ 63 \<le> w \<and> df \<noteq> []"
  then show "add_rolling df w = Inl OverflowError" by (simp add: add_rolling_overflow)
next
  assume small: "w < 2 ^ 63"
  let ?ts = "map temperature df"
  from assms small add_rolling_Inr [of w df] obtain d where d: "add_rolling df w = Inr d"
    by auto
  note c = add_rolling_columns_nth [OF d]
  have len: "length (roll_anomaly d) = length df"
    using d by (auto simp: add_rolling_def Let_def split: if_splits)
  have pre: "roll_mean d ! i = None \<and> roll_std d ! i = None \<and> \<not> roll_anomaly d ! i"
    if "i < length df" "int i < w - 1" for i
  proof -
    have i: "i < length ?ts" using that(1) by simp
    have "valid_count (nat w) ?ts i \<le> Suc i" using valid_count_le [of "nat w" ?ts i] by simp
    moreover have "Suc i < nat w" using that(2) by linarith
    ultimately have lt: "valid_count (nat w) ?ts i < nat w" by simp
    have "roll_mean d ! i = None"
      using rolling_mean_defined [OF i, of "nat w" "nat w"] lt by (simp add: c(1) [OF that(1)])
    moreover have "roll_std d ! i = None"
      using rolling_std_defined [OF i, of "nat w" "nat w"] lt by (simp add: c(2) [OF that(1)])
    ultimately show ?thesis by (simp add: c(5) [OF that(1)])
  qed
  have all: "(\<forall>i<length df. roll_mean d ! i = None \<and> roll_std d ! i = None \<and>
           roll_upper d ! i = None \<and> roll_lower d ! i = None) \<and>
        True \<notin> set (roll_anomaly d)" if big: "int (length df) < w"
  proof -
    have p: "roll_mean d ! i = None \<and> roll_std d ! i = None \<and> \<not> roll_anomaly d ! i"
      if "i < length df" for i
      using pre [of i] that big by simp
    have "roll_upper d ! i = None \<and> roll_lower d ! i = None" if "i < length df" for i
      using p [OF that] by (simp add: c(3,4) [OF that] fadd_def fsub_def)
    moreover have "True \<notin> set (roll_anomaly d)"
    proof
      assume "True \<in> set (roll_anomaly d)"
      then obtain i where "i < length (roll_anomaly d)" "roll_anomaly d ! i"
        by (auto simp: in_set_conv_nth)
      then show False using p len by auto
    qed
    ultimately show ?thesis using p by blast
  qed
  show "\<exists>d. add_rolling df w = Inr d \<and> length (roll_anomaly d) = length df \<and>
         (\<forall>i<length df. int i < w - 1 \<longrightarrow>
            roll_mean d ! i = None \<and> roll_std d ! i = None \<and> \<not> roll_anomaly d ! i) \<and>
         (int (length df) < w \<longrightarrow>
            (\<forall>i<length df. roll_mean d ! i = None \<and> roll_std d ! i = None \<and>
               roll_upper d ! i = None \<and> roll_lower d ! i = None) \<and>
            True \<notin> set (roll_anomaly d))"
    using d len pre all by blast
qed

text \<open>C2 as stated fails: a window of \<open>2\<^sup>6\<^sup>3\<close> on a series of one reading raises \<^verbatim>\<open>OverflowError\<close>.\<close>

theorem add_rolling_huge_window_counterexample:
  "add_rolling [\<lparr>city = ''A'', timestamp = Some 0, temperature = Some 1, season = Some ''winter''\<rparr>]
     9223372036854775808 = Inl OverflowError"
  by (simp add: add_rolling_def)

theorem add_rolling_prefix_undefined_witness:
  "(1::int) \<le> 3 \<and> (3::int) < 2 ^ 63 \<and>
   (\<exists>d. add_rolling [\<lparr>city = ''A'', timestamp = Some 0, temperature = Some 1, season = Some ''winter''\<rparr>,
                      \<lparr>city = ''A'', timestamp = Some 1, temperature = Some 50, season = Some ''winter''\<rparr>] 3 = Inr d \<and>
      roll_mean d ! 0 = None \<and> roll_std d ! 0 = None \<and> \<not> roll_anomaly d ! 0 \<and>
      roll_mean d ! 1 = None \<and> roll_std d ! 1 = None \<and> True \<notin> set (roll_anomaly d)) \<and>
   (2::int) ^ 63 \<le> 2 ^ 63 \<and>
   add_rolling [\<lparr>city = ''A'', timestamp = Some 0, temperature = Some 1, season = Some ''winter''\<rparr>]
     (2 ^ 63) = Inl OverflowError"
  using add_rolling_prefix_undefined [of 3
      "[\<lparr>city = ''A'', timestamp = Some 0, temperature = Some 1, season = Some ''winter''\<rparr>,
        \<lparr>city = ''A'', timestamp = Some 1, temperature = Some 50, season = Some ''winter''\<rparr>]"]
    add_rolling_prefix_undefined [of "2 ^ 63"
      "[\<lparr>city = ''A'', timestamp = Some 0, temperature = Some 1, season = Some ''winter''\<rparr>]"]
  by (auto simp: eval_nat_numeral less_Suc_eq)

subsection \<open>The rolling band on concrete series\<close>

lemma rnd_1 [simp]: "rnd 1 = 1"
proof -
  have "rnd 1 = of_int 4503599627370496 * 2 powi (0 - 52)"
    by (rule rnd_near) (simp_all add: round_even_def power_int_minus)
  then show ?thesis by (simp add: power_int_minus)
qed

lemma round_even_interval:
  assumes "of_int m \<le> x" "x < of_int m + 1 / 2"
  shows "round_even x = m"
proof -
  have "\<lfloor>x\<rfloor> = m" using assms by (simp add: floor_eq_iff)
  then show ?thesis using assms by (simp add: round_even_def)
qed

lemma round_even_interval_up:
  assumes "of_int m - 1 / 2 < x" "x < of_int m"
  shows "round_even x = m"
proof -
  have "\<lfloor>x\<rfloor> = m - 1" using assms by (simp add: floor_eq_iff)
  then show ?thesis using assms by (simp add: round_even_def)
qed



















text \<open>
  The example of the pandas documentation of the rolling standard deviation: the series
  5, 5, 6, 7, 5, 5, 5 with a window of 3 rows gives NaN, NaN, 0.577350, 1.000000,
  1.000000, 1.154701 and 0.000000. The window slides, and the last window is constant.
\<close>

lemma rnd_doc_0: "rnd (- 7) = - 7"
proof -
  have "rnd (- 7) = of_int (- 7881299347898368) * 2 powi (2 - 52)"
  proof (rule rnd_near)
    show "(2::real) powi (2) \<le> \<bar>- 7\<bar>" by (simp add: power_int_minus)
    show "\<bar>- 7 :: real\<bar> < 2 powi (2 + 1)" by (simp add: power_int_minus)
    show "(- 1022 :: int) \<le> 2" by simp
    show "round_even (- 7 / 2 powi (2 - 52)) = - 7881299347898368" by (simp add: round_even_def power_int_minus)
  qed
  then show ?thesis by (simp add: power_int_minus)
qed

lemma rnd_doc_1: "rnd (- 6) = - 6"
proof -
  have "rnd (- 6) = of_int (- 6755399441055744) * 2 powi (2 - 52)"
  proof (rule rnd_near)
    show "(2::real) powi (2) \<le> \<bar>- 6\<bar>" by (simp add: power_int_minus)
    show "\<bar>- 6 :: real\<bar> < 2 powi (2 + 1)" by (simp add: power_int_minus)
    show "(- 1022 :: int) \<le> 2" by simp
    show "round_even (- 6 / 2 powi (2 - 52)) = - 6755399441055744" by (simp add: round_even_def power_int_minus)
  qed
  then show ?thesis by (simp add: power_int_minus)
qed

lemma rnd_doc_2: "rnd (- 5) = - 5"
proof -
  have "rnd (- 5) = of_int (- 5629499534213120) * 2 powi (2 - 52)"
  proof (rule rnd_near)
    show "(2::real) powi (2) \<le> \<bar>- 5\<bar>" by (simp add: power_int_minus)
    show "\<bar>- 5 :: real\<bar> < 2 powi (2 + 1)" by (simp add: power_int_minus)
    show "(- 1022 :: int) \<le> 2" by simp
    show "round_even (- 5 / 2 powi (2 - 52)) = - 5629499534213120" by (simp add: round_even_def power_int_minus)
  qed
  then show ?thesis by (simp add: power_int_minus)
qed

lemma rnd_doc_3: "rnd (- (3 / 2)) = - (3 / 2)"
proof -
  have "rnd (- (3 / 2)) = of_int (- 6755399441055744) * 2 powi (0 - 52)"
  proof (rule rnd_near)
    show "(2::real) powi (0) \<le> \<bar>- (3 / 2)\<bar>" by (simp add: power_int_minus)
    show "\<bar>- (3 / 2) :: real\<bar> < 2 powi (0 + 1)" by (simp add: power_int_minus)
    show "(- 1022 :: int) \<le> 0" by simp
    show "round_even (- (3 / 2) / 2 powi (0 - 52)) = - 6755399441055744" by (simp add: round_even_def power_int_minus)
  qed
  then show ?thesis by (simp add: power_int_minus)
qed

lemma rnd_doc_4: "rnd (- 1) = - 1"
proof -
  have "rnd (- 1) = of_int (- 4503599627370496) * 2 powi (0 - 52)"
  proof (rule rnd_near)
    show "(2::real) powi (0) \<le> \<bar>- 1\<bar>" by (simp add: power_int_minus)
    show "\<bar>- 1 :: real\<bar> < 2 powi (0 + 1)" by (simp add: power_int_minus)
    show "(- 1022 :: int) \<le> 0" by simp
    show "round_even (- 1 / 2 powi (0 - 52)) = - 4503599627370496" by (simp add: round_even_def power_int_minus)
  qed
  then show ?thesis by (simp add: power_int_minus)
qed

lemma rnd_doc_5: "rnd (- (750599937895083 / 1125899906842624)) = - (750599937895083 / 1125899906842624)"
proof -
  have "rnd (- (750599937895083 / 1125899906842624)) = of_int (- 6004799503160664) * 2 powi (- 1 - 52)"
  proof (rule rnd_near)
    show "(2::real) powi (- 1) \<le> \<bar>- (750599937895083 / 1125899906842624)\<bar>" by (simp add: power_int_minus)
    show "\<bar>- (750599937895083 / 1125899906842624) :: real\<bar> < 2 powi (- 1 + 1)" by (simp add: power_int_minus)
    show "(- 1022 :: int) \<le> - 1" by simp
    show "round_even (- (750599937895083 / 1125899906842624) / 2 powi (- 1 - 52)) = - 6004799503160664" by (simp add: round_even_def power_int_minus)
  qed
  then show ?thesis by (simp add: power_int_minus)
qed

lemma rnd_doc_6: "rnd (- (1 / 2)) = - (1 / 2)"
proof -
  have "rnd (- (1 / 2)) = of_int (- 4503599627370496) * 2 powi (- 1 - 52)"
  proof (rule rnd_near)
    show "(2::real) powi (- 1) \<le> \<bar>- (1 / 2)\<bar>" by (simp add: power_int_minus)
    show "\<bar>- (1 / 2) :: real\<bar> < 2 powi (- 1 + 1)" by (simp add: power_int_minus)
    show "(- 1022 :: int) \<le> - 1" by simp
    show "round_even (- (1 / 2) / 2 powi (- 1 - 52)) = - 4503599627370496" by (simp add: round_even_def power_int_minus)
  qed
  then show ?thesis by (simp add: power_int_minus)
qed

lemma rnd_doc_7: "rnd (- (1 / 3)) = - (6004799503160661 / 18014398509481984)"
proof -
  have "rnd (- (1 / 3)) = of_int (- 6004799503160661) * 2 powi (- 2 - 52)"
  proof (rule rnd_near)
    show "(2::real) powi (- 2) \<le> \<bar>- (1 / 3)\<bar>" by (simp add: power_int_minus)
    show "\<bar>- (1 / 3) :: real\<bar> < 2 powi (- 2 + 1)" by (simp add: power_int_minus)
    show "(- 1022 :: int) \<le> - 2" by simp
    show "round_even (- (1 / 3) / 2 powi (- 2 - 52)) = - 6004799503160661" by (simp add: round_even_def power_int_minus)
  qed
  then show ?thesis by (simp add: power_int_minus)
qed

lemma rnd_doc_8: "rnd (- (375299968947541 / 1125899906842624)) = - (375299968947541 / 1125899906842624)"
proof -
  have "rnd (- (375299968947541 / 1125899906842624)) = of_int (- 6004799503160656) * 2 powi (- 2 - 52)"
  proof (rule rnd_near)
    show "(2::real) powi (- 2) \<le> \<bar>- (375299968947541 / 1125899906842624)\<bar>" by (simp add: power_int_minus)
    show "\<bar>- (375299968947541 / 1125899906842624) :: real\<bar> < 2 powi (- 2 + 1)" by (simp add: power_int_minus)
    show "(- 1022 :: int) \<le> - 2" by simp
    show "round_even (- (375299968947541 / 1125899906842624) / 2 powi (- 2 - 52)) = - 6004799503160656" by (simp add: round_even_def power_int_minus)
  qed
  then show ?thesis by (simp add: power_int_minus)
qed

lemma rnd_doc_9: "rnd (- (375299968947541 / 2251799813685248)) = - (375299968947541 / 2251799813685248)"
proof -
  have "rnd (- (375299968947541 / 2251799813685248)) = of_int (- 6004799503160656) * 2 powi (- 3 - 52)"
  proof (rule rnd_near)
    show "(2::real) powi (- 3) \<le> \<bar>- (375299968947541 / 2251799813685248)\<bar>" by (simp add: power_int_minus)
    show "\<bar>- (375299968947541 / 2251799813685248) :: real\<bar> < 2 powi (- 3 + 1)" by (simp add: power_int_minus)
    show "(- 1022 :: int) \<le> - 3" by simp
    show "round_even (- (375299968947541 / 2251799813685248) / 2 powi (- 3 - 52)) = - 6004799503160656" by (simp add: round_even_def power_int_minus)
  qed
  then show ?thesis by (simp add: power_int_minus)
qed

lemma rnd_doc_10: "rnd (3 / 2251799813685248) = 3 / 2251799813685248"
proof -
  have "rnd (3 / 2251799813685248) = of_int (6755399441055744) * 2 powi (- 50 - 52)"
  proof (rule rnd_near)
    show "(2::real) powi (- 50) \<le> \<bar>3 / 2251799813685248\<bar>" by (simp add: power_int_minus)
    show "\<bar>3 / 2251799813685248 :: real\<bar> < 2 powi (- 50 + 1)" by (simp add: power_int_minus)
    show "(- 1022 :: int) \<le> - 50" by simp
    show "round_even (3 / 2251799813685248 / 2 powi (- 50 - 52)) = 6755399441055744" by (simp add: round_even_def power_int_minus)
  qed
  then show ?thesis by (simp add: power_int_minus)
qed

lemma rnd_doc_11: "rnd (375299968947541 / 2251799813685248) = 375299968947541 / 2251799813685248"
proof -
  have "rnd (375299968947541 / 2251799813685248) = of_int (6004799503160656) * 2 powi (- 3 - 52)"
  proof (rule rnd_near)
    show "(2::real) powi (- 3) \<le> \<bar>375299968947541 / 2251799813685248\<bar>" by (simp add: power_int_minus)
    show "\<bar>375299968947541 / 2251799813685248 :: real\<bar> < 2 powi (- 3 + 1)" by (simp add: power_int_minus)
    show "(- 1022 :: int) \<le> - 3" by simp
    show "round_even (375299968947541 / 2251799813685248 / 2 powi (- 3 - 52)) = 6004799503160656" by (simp add: round_even_def power_int_minus)
  qed
  then show ?thesis by (simp add: power_int_minus)
qed

lemma rnd_doc_12: "rnd (1 / 3) = 6004799503160661 / 18014398509481984"
proof -
  have "rnd (1 / 3) = of_int (6004799503160661) * 2 powi (- 2 - 52)"
  proof (rule rnd_near)
    show "(2::real) powi (- 2) \<le> \<bar>1 / 3\<bar>" by (simp add: power_int_minus)
    show "\<bar>1 / 3 :: real\<bar> < 2 powi (- 2 + 1)" by (simp add: power_int_minus)
    show "(- 1022 :: int) \<le> - 2" by simp
    show "round_even (1 / 3 / 2 powi (- 2 - 52)) = 6004799503160661" by (simp add: round_even_def power_int_minus)
  qed
  then show ?thesis by (simp add: power_int_minus)
qed

lemma rnd_doc_13: "rnd (750599937895083 / 2251799813685248) = 750599937895083 / 2251799813685248"
proof -
  have "rnd (750599937895083 / 2251799813685248) = of_int (6004799503160664) * 2 powi (- 2 - 52)"
  proof (rule rnd_near)
    show "(2::real) powi (- 2) \<le> \<bar>750599937895083 / 2251799813685248\<bar>" by (simp add: power_int_minus)
    show "\<bar>750599937895083 / 2251799813685248 :: real\<bar> < 2 powi (- 2 + 1)" by (simp add: power_int_minus)
    show "(- 1022 :: int) \<le> - 2" by simp
    show "round_even (750599937895083 / 2251799813685248 / 2 powi (- 2 - 52)) = 6004799503160664" by (simp add: round_even_def power_int_minus)
  qed
  then show ?thesis by (simp add: power_int_minus)
qed

lemma rnd_doc_14: "rnd (1 / 2) = 1 / 2"
proof -
  have "rnd (1 / 2) = of_int (4503599627370496) * 2 powi (- 1 - 52)"
  proof (rule rnd_near)
    show "(2::real) powi (- 1) \<le> \<bar>1 / 2\<bar>" by (simp add: power_int_minus)
    show "\<bar>1 / 2 :: real\<bar> < 2 powi (- 1 + 1)" by (simp add: power_int_minus)
    show "(- 1022 :: int) \<le> - 1" by simp
    show "round_even (1 / 2 / 2 powi (- 1 - 52)) = 4503599627370496" by (simp add: round_even_def power_int_minus)
  qed
  then show ?thesis by (simp add: power_int_minus)
qed

lemma rnd_doc_15: "rnd (1125899906842625 / 2251799813685248) = 1125899906842625 / 2251799813685248"
proof -
  have "rnd (1125899906842625 / 2251799813685248) = of_int (4503599627370500) * 2 powi (- 1 - 52)"
  proof (rule rnd_near)
    show "(2::real) powi (- 1) \<le> \<bar>1125899906842625 / 2251799813685248\<bar>" by (simp add: power_int_minus)
    show "\<bar>1125899906842625 / 2251799813685248 :: real\<bar> < 2 powi (- 1 + 1)" by (simp add: power_int_minus)
    show "(- 1022 :: int) \<le> - 1" by simp
    show "round_even (1125899906842625 / 2251799813685248 / 2 powi (- 1 - 52)) = 4503599627370500" by (simp add: round_even_def power_int_minus)
  qed
  then show ?thesis by (simp add: power_int_minus)
qed

lemma rnd_doc_16: "rnd (1501199875790165 / 2251799813685248) = 1501199875790165 / 2251799813685248"
proof -
  have "rnd (1501199875790165 / 2251799813685248) = of_int (6004799503160660) * 2 powi (- 1 - 52)"
  proof (rule rnd_near)
    show "(2::real) powi (- 1) \<le> \<bar>1501199875790165 / 2251799813685248\<bar>" by (simp add: power_int_minus)
    show "\<bar>1501199875790165 / 2251799813685248 :: real\<bar> < 2 powi (- 1 + 1)" by (simp add: power_int_minus)
    show "(- 1022 :: int) \<le> - 1" by simp
    show "round_even (1501199875790165 / 2251799813685248 / 2 powi (- 1 - 52)) = 6004799503160660" by (simp add: round_even_def power_int_minus)
  qed
  then show ?thesis by (simp add: power_int_minus)
qed

lemma rnd_doc_17: "rnd (750599937895083 / 1125899906842624) = 750599937895083 / 1125899906842624"
proof -
  have "rnd (750599937895083 / 1125899906842624) = of_int (6004799503160664) * 2 powi (- 1 - 52)"
  proof (rule rnd_near)
    show "(2::real) powi (- 1) \<le> \<bar>750599937895083 / 1125899906842624\<bar>" by (simp add: power_int_minus)
    show "\<bar>750599937895083 / 1125899906842624 :: real\<bar> < 2 powi (- 1 + 1)" by (simp add: power_int_minus)
    show "(- 1022 :: int) \<le> - 1" by simp
    show "round_even (750599937895083 / 1125899906842624 / 2 powi (- 1 - 52)) = 6004799503160664" by (simp add: round_even_def power_int_minus)
  qed
  then show ?thesis by (simp add: power_int_minus)
qed

lemma rnd_doc_18: "rnd (1) = 1"
proof -
  have "rnd (1) = of_int (4503599627370496) * 2 powi (0 - 52)"
  proof (rule rnd_near)
    show "(2::real) powi (0) \<le> \<bar>1\<bar>" by (simp add: power_int_minus)
    show "\<bar>1 :: real\<bar> < 2 powi (0 + 1)" by (simp add: power_int_minus)
    show "(- 1022 :: int) \<le> 0" by simp
    show "round_even (1 / 2 powi (0 - 52)) = 4503599627370496" by (simp add: round_even_def power_int_minus)
  qed
  then show ?thesis by (simp add: power_int_minus)
qed

lemma rnd_doc_19: "rnd (4503599627370497 / 4503599627370496) = 4503599627370497 / 4503599627370496"
proof -
  have "rnd (4503599627370497 / 4503599627370496) = of_int (4503599627370497) * 2 powi (0 - 52)"
  proof (rule rnd_near)
    show "(2::real) powi (0) \<le> \<bar>4503599627370497 / 4503599627370496\<bar>" by (simp add: power_int_minus)
    show "\<bar>4503599627370497 / 4503599627370496 :: real\<bar> < 2 powi (0 + 1)" by (simp add: power_int_minus)
    show "(- 1022 :: int) \<le> 0" by simp
    show "round_even (4503599627370497 / 4503599627370496 / 2 powi (0 - 52)) = 4503599627370497" by (simp add: round_even_def power_int_minus)
  qed
  then show ?thesis by (simp add: power_int_minus)
qed

lemma rnd_doc_20: "rnd (1501199875790165 / 1125899906842624) = 1501199875790165 / 1125899906842624"
proof -
  have "rnd (1501199875790165 / 1125899906842624) = of_int (6004799503160660) * 2 powi (0 - 52)"
  proof (rule rnd_near)
    show "(2::real) powi (0) \<le> \<bar>1501199875790165 / 1125899906842624\<bar>" by (simp add: power_int_minus)
    show "\<bar>1501199875790165 / 1125899906842624 :: real\<bar> < 2 powi (0 + 1)" by (simp add: power_int_minus)
    show "(- 1022 :: int) \<le> 0" by simp
    show "round_even (1501199875790165 / 1125899906842624 / 2 powi (0 - 52)) = 6004799503160660" by (simp add: round_even_def power_int_minus)
  qed
  then show ?thesis by (simp add: power_int_minus)
qed

lemma rnd_doc_21: "rnd (6004799503160663 / 4503599627370496) = 6004799503160663 / 4503599627370496"
proof -
  have "rnd (6004799503160663 / 4503599627370496) = of_int (6004799503160663) * 2 powi (0 - 52)"
  proof (rule rnd_near)
    show "(2::real) powi (0) \<le> \<bar>6004799503160663 / 4503599627370496\<bar>" by (simp add: power_int_minus)
    show "\<bar>6004799503160663 / 4503599627370496 :: real\<bar> < 2 powi (0 + 1)" by (simp add: power_int_minus)
    show "(- 1022 :: int) \<le> 0" by simp
    show "round_even (6004799503160663 / 4503599627370496 / 2 powi (0 - 52)) = 6004799503160663" by (simp add: round_even_def power_int_minus)
  qed
  then show ?thesis by (simp add: power_int_minus)
qed

lemma rnd_doc_22: "rnd (3 / 2) = 3 / 2"
proof -
  have "rnd (3 / 2) = of_int (6755399441055744) * 2 powi (0 - 52)"
  proof (rule rnd_near)
    show "(2::real) powi (0) \<le> \<bar>3 / 2\<bar>" by (simp add: power_int_minus)
    show "\<bar>3 / 2 :: real\<bar> < 2 powi (0 + 1)" by (simp add: power_int_minus)
    show "(- 1022 :: int) \<le> 0" by simp
    show "round_even (3 / 2 / 2 powi (0 - 52)) = 6755399441055744" by (simp add: round_even_def power_int_minus)
  qed
  then show ?thesis by (simp add: power_int_minus)
qed

lemma rnd_doc_23: "rnd (2) = 2"
proof -
  have "rnd (2) = of_int (4503599627370496) * 2 powi (1 - 52)"
  proof (rule rnd_near)
    show "(2::real) powi (1) \<le> \<bar>2\<bar>" by (simp add: power_int_minus)
    show "\<bar>2 :: real\<bar> < 2 powi (1 + 1)" by (simp add: power_int_minus)
    show "(- 1022 :: int) \<le> 1" by simp
    show "round_even (2 / 2 powi (1 - 52)) = 4503599627370496" by (simp add: round_even_def power_int_minus)
  qed
  then show ?thesis by (simp add: power_int_minus)
qed

lemma rnd_doc_24: "rnd (4503599627370497 / 2251799813685248) = 4503599627370497 / 2251799813685248"
proof -
  have "rnd (4503599627370497 / 2251799813685248) = of_int (4503599627370497) * 2 powi (1 - 52)"
  proof (rule rnd_near)
    show "(2::real) powi (1) \<le> \<bar>4503599627370497 / 2251799813685248\<bar>" by (simp add: power_int_minus)
    show "\<bar>4503599627370497 / 2251799813685248 :: real\<bar> < 2 powi (1 + 1)" by (simp add: power_int_minus)
    show "(- 1022 :: int) \<le> 1" by simp
    show "round_even (4503599627370497 / 2251799813685248 / 2 powi (1 - 52)) = 4503599627370497" by (simp add: round_even_def power_int_minus)
  qed
  then show ?thesis by (simp add: power_int_minus)
qed

lemma rnd_doc_25: "rnd (1501199875790165 / 562949953421312) = 1501199875790165 / 562949953421312"
proof -
  have "rnd (1501199875790165 / 562949953421312) = of_int (6004799503160660) * 2 powi (1 - 52)"
  proof (rule rnd_near)
    show "(2::real) powi (1) \<le> \<bar>1501199875790165 / 562949953421312\<bar>" by (simp add: power_int_minus)
    show "\<bar>1501199875790165 / 562949953421312 :: real\<bar> < 2 powi (1 + 1)" by (simp add: power_int_minus)
    show "(- 1022 :: int) \<le> 1" by simp
    show "round_even (1501199875790165 / 562949953421312 / 2 powi (1 - 52)) = 6004799503160660" by (simp add: round_even_def power_int_minus)
  qed
  then show ?thesis by (simp add: power_int_minus)
qed

lemma rnd_doc_26: "rnd (6004799503160663 / 2251799813685248) = 6004799503160663 / 2251799813685248"
proof -
  have "rnd (6004799503160663 / 2251799813685248) = of_int (6004799503160663) * 2 powi (1 - 52)"
  proof (rule rnd_near)
    show "(2::real) powi (1) \<le> \<bar>6004799503160663 / 2251799813685248\<bar>" by (simp add: power_int_minus)
    show "\<bar>6004799503160663 / 2251799813685248 :: real\<bar> < 2 powi (1 + 1)" by (simp add: power_int_minus)
    show "(- 1022 :: int) \<le> 1" by simp
    show "round_even (6004799503160663 / 2251799813685248 / 2 powi (1 - 52)) = 6004799503160663" by (simp add: round_even_def power_int_minus)
  qed
  then show ?thesis by (simp add: power_int_minus)
qed

lemma rnd_doc_27: "rnd (5) = 5"
proof -
  have "rnd (5) = of_int (5629499534213120) * 2 powi (2 - 52)"
  proof (rule rnd_near)
    show "(2::real) powi (2) \<le> \<bar>5\<bar>" by (simp add: power_int_minus)
    show "\<bar>5 :: real\<bar> < 2 powi (2 + 1)" by (simp add: power_int_minus)
    show "(- 1022 :: int) \<le> 2" by simp
    show "round_even (5 / 2 powi (2 - 52)) = 5629499534213120" by (simp add: round_even_def power_int_minus)
  qed
  then show ?thesis by (simp add: power_int_minus)
qed

lemma rnd_doc_28: "rnd (11258999068426241 / 2251799813685248) = 5"
proof -
  have "rnd (11258999068426241 / 2251799813685248) = of_int (5629499534213120) * 2 powi (2 - 52)"
  proof (rule rnd_near)
    show "(2::real) powi (2) \<le> \<bar>11258999068426241 / 2251799813685248\<bar>" by (simp add: power_int_minus)
    show "\<bar>11258999068426241 / 2251799813685248 :: real\<bar> < 2 powi (2 + 1)" by (simp add: power_int_minus)
    show "(- 1022 :: int) \<le> 2" by simp
    show "round_even (11258999068426241 / 2251799813685248 / 2 powi (2 - 52)) = 5629499534213120" by (simp add: round_even_def power_int_minus)
  qed
  then show ?thesis by (simp add: power_int_minus)
qed

lemma rnd_doc_29: "rnd (6004799503160661 / 1125899906842624) = 6004799503160661 / 1125899906842624"
proof -
  have "rnd (6004799503160661 / 1125899906842624) = of_int (6004799503160661) * 2 powi (2 - 52)"
  proof (rule rnd_near)
    show "(2::real) powi (2) \<le> \<bar>6004799503160661 / 1125899906842624\<bar>" by (simp add: power_int_minus)
    show "\<bar>6004799503160661 / 1125899906842624 :: real\<bar> < 2 powi (2 + 1)" by (simp add: power_int_minus)
    show "(- 1022 :: int) \<le> 2" by simp
    show "round_even (6004799503160661 / 1125899906842624 / 2 powi (2 - 52)) = 6004799503160661" by (simp add: round_even_def power_int_minus)
  qed
  then show ?thesis by (simp add: power_int_minus)
qed

lemma rnd_doc_30: "rnd (96076792050570581 / 18014398509481984) = 6004799503160661 / 1125899906842624"
proof -
  have "rnd (96076792050570581 / 18014398509481984) = of_int (6004799503160661) * 2 powi (2 - 52)"
  proof (rule rnd_near)
    show "(2::real) powi (2) \<le> \<bar>96076792050570581 / 18014398509481984\<bar>" by (simp add: power_int_minus)
    show "\<bar>96076792050570581 / 18014398509481984 :: real\<bar> < 2 powi (2 + 1)" by (simp add: power_int_minus)
    show "(- 1022 :: int) \<le> 2" by simp
    show "round_even (96076792050570581 / 18014398509481984 / 2 powi (2 - 52)) = 6004799503160661" by (simp add: round_even_def power_int_minus)
  qed
  then show ?thesis by (simp add: power_int_minus)
qed

lemma rnd_doc_31: "rnd (16 / 3) = 6004799503160661 / 1125899906842624"
proof -
  have "rnd (16 / 3) = of_int (6004799503160661) * 2 powi (2 - 52)"
  proof (rule rnd_near)
    show "(2::real) powi (2) \<le> \<bar>16 / 3\<bar>" by (simp add: power_int_minus)
    show "\<bar>16 / 3 :: real\<bar> < 2 powi (2 + 1)" by (simp add: power_int_minus)
    show "(- 1022 :: int) \<le> 2" by simp
    show "round_even (16 / 3 / 2 powi (2 - 52)) = 6004799503160661" by (simp add: round_even_def power_int_minus)
  qed
  then show ?thesis by (simp add: power_int_minus)
qed

lemma rnd_doc_32: "rnd (12384898975268863 / 2251799813685248) = 11 / 2"
proof -
  have "rnd (12384898975268863 / 2251799813685248) = of_int (6192449487634432) * 2 powi (2 - 52)"
  proof (rule rnd_near)
    show "(2::real) powi (2) \<le> \<bar>12384898975268863 / 2251799813685248\<bar>" by (simp add: power_int_minus)
    show "\<bar>12384898975268863 / 2251799813685248 :: real\<bar> < 2 powi (2 + 1)" by (simp add: power_int_minus)
    show "(- 1022 :: int) \<le> 2" by simp
    show "round_even (12384898975268863 / 2251799813685248 / 2 powi (2 - 52)) = 6192449487634432" by (simp add: round_even_def power_int_minus)
  qed
  then show ?thesis by (simp add: power_int_minus)
qed

lemma rnd_doc_33: "rnd (11 / 2) = 11 / 2"
proof -
  have "rnd (11 / 2) = of_int (6192449487634432) * 2 powi (2 - 52)"
  proof (rule rnd_near)
    show "(2::real) powi (2) \<le> \<bar>11 / 2\<bar>" by (simp add: power_int_minus)
    show "\<bar>11 / 2 :: real\<bar> < 2 powi (2 + 1)" by (simp add: power_int_minus)
    show "(- 1022 :: int) \<le> 2" by simp
    show "round_even (11 / 2 / 2 powi (2 - 52)) = 6192449487634432" by (simp add: round_even_def power_int_minus)
  qed
  then show ?thesis by (simp add: power_int_minus)
qed

lemma rnd_doc_34: "rnd (17 / 3) = 6380099472108203 / 1125899906842624"
proof -
  have "rnd (17 / 3) = of_int (6380099472108203) * 2 powi (2 - 52)"
  proof (rule rnd_near)
    show "(2::real) powi (2) \<le> \<bar>17 / 3\<bar>" by (simp add: power_int_minus)
    show "\<bar>17 / 3 :: real\<bar> < 2 powi (2 + 1)" by (simp add: power_int_minus)
    show "(- 1022 :: int) \<le> 2" by simp
    show "round_even (17 / 3 / 2 powi (2 - 52)) = 6380099472108203" by (simp add: round_even_def power_int_minus)
  qed
  then show ?thesis by (simp add: power_int_minus)
qed

lemma rnd_doc_35: "rnd (102081591553731243 / 18014398509481984) = 6380099472108203 / 1125899906842624"
proof -
  have "rnd (102081591553731243 / 18014398509481984) = of_int (6380099472108203) * 2 powi (2 - 52)"
  proof (rule rnd_near)
    show "(2::real) powi (2) \<le> \<bar>102081591553731243 / 18014398509481984\<bar>" by (simp add: power_int_minus)
    show "\<bar>102081591553731243 / 18014398509481984 :: real\<bar> < 2 powi (2 + 1)" by (simp add: power_int_minus)
    show "(- 1022 :: int) \<le> 2" by simp
    show "round_even (102081591553731243 / 18014398509481984 / 2 powi (2 - 52)) = 6380099472108203" by (simp add: round_even_def power_int_minus)
  qed
  then show ?thesis by (simp add: power_int_minus)
qed

lemma rnd_doc_36: "rnd (6380099472108203 / 1125899906842624) = 6380099472108203 / 1125899906842624"
proof -
  have "rnd (6380099472108203 / 1125899906842624) = of_int (6380099472108203) * 2 powi (2 - 52)"
  proof (rule rnd_near)
    show "(2::real) powi (2) \<le> \<bar>6380099472108203 / 1125899906842624\<bar>" by (simp add: power_int_minus)
    show "\<bar>6380099472108203 / 1125899906842624 :: real\<bar> < 2 powi (2 + 1)" by (simp add: power_int_minus)
    show "(- 1022 :: int) \<le> 2" by simp
    show "round_even (6380099472108203 / 1125899906842624 / 2 powi (2 - 52)) = 6380099472108203" by (simp add: round_even_def power_int_minus)
  qed
  then show ?thesis by (simp add: power_int_minus)
qed

lemma rnd_doc_37: "rnd (6) = 6"
proof -
  have "rnd (6) = of_int (6755399441055744) * 2 powi (2 - 52)"
  proof (rule rnd_near)
    show "(2::real) powi (2) \<le> \<bar>6\<bar>" by (simp add: power_int_minus)
    show "\<bar>6 :: real\<bar> < 2 powi (2 + 1)" by (simp add: power_int_minus)
    show "(- 1022 :: int) \<le> 2" by simp
    show "round_even (6 / 2 powi (2 - 52)) = 6755399441055744" by (simp add: round_even_def power_int_minus)
  qed
  then show ?thesis by (simp add: power_int_minus)
qed

lemma rnd_doc_38: "rnd (13 / 2) = 13 / 2"
proof -
  have "rnd (13 / 2) = of_int (7318349394477056) * 2 powi (2 - 52)"
  proof (rule rnd_near)
    show "(2::real) powi (2) \<le> \<bar>13 / 2\<bar>" by (simp add: power_int_minus)
    show "\<bar>13 / 2 :: real\<bar> < 2 powi (2 + 1)" by (simp add: power_int_minus)
    show "(- 1022 :: int) \<le> 2" by simp
    show "round_even (13 / 2 / 2 powi (2 - 52)) = 7318349394477056" by (simp add: round_even_def power_int_minus)
  qed
  then show ?thesis by (simp add: power_int_minus)
qed

lemma rnd_doc_39: "rnd (7) = 7"
proof -
  have "rnd (7) = of_int (7881299347898368) * 2 powi (2 - 52)"
  proof (rule rnd_near)
    show "(2::real) powi (2) \<le> \<bar>7\<bar>" by (simp add: power_int_minus)
    show "\<bar>7 :: real\<bar> < 2 powi (2 + 1)" by (simp add: power_int_minus)
    show "(- 1022 :: int) \<le> 2" by simp
    show "round_even (7 / 2 powi (2 - 52)) = 7881299347898368" by (simp add: round_even_def power_int_minus)
  qed
  then show ?thesis by (simp add: power_int_minus)
qed

lemma rnd_doc_40: "rnd (10) = 10"
proof -
  have "rnd (10) = of_int (5629499534213120) * 2 powi (3 - 52)"
  proof (rule rnd_near)
    show "(2::real) powi (3) \<le> \<bar>10\<bar>" by (simp add: power_int_minus)
    show "\<bar>10 :: real\<bar> < 2 powi (3 + 1)" by (simp add: power_int_minus)
    show "(- 1022 :: int) \<le> 3" by simp
    show "round_even (10 / 2 powi (3 - 52)) = 5629499534213120" by (simp add: round_even_def power_int_minus)
  qed
  then show ?thesis by (simp add: power_int_minus)
qed

lemma rnd_doc_41: "rnd (11) = 11"
proof -
  have "rnd (11) = of_int (6192449487634432) * 2 powi (3 - 52)"
  proof (rule rnd_near)
    show "(2::real) powi (3) \<le> \<bar>11\<bar>" by (simp add: power_int_minus)
    show "\<bar>11 :: real\<bar> < 2 powi (3 + 1)" by (simp add: power_int_minus)
    show "(- 1022 :: int) \<le> 3" by simp
    show "round_even (11 / 2 powi (3 - 52)) = 6192449487634432" by (simp add: round_even_def power_int_minus)
  qed
  then show ?thesis by (simp add: power_int_minus)
qed

lemma rnd_doc_42: "rnd (12) = 12"
proof -
  have "rnd (12) = of_int (6755399441055744) * 2 powi (3 - 52)"
  proof (rule rnd_near)
    show "(2::real) powi (3) \<le> \<bar>12\<bar>" by (simp add: power_int_minus)
    show "\<bar>12 :: real\<bar> < 2 powi (3 + 1)" by (simp add: power_int_minus)
    show "(- 1022 :: int) \<le> 3" by simp
    show "round_even (12 / 2 powi (3 - 52)) = 6755399441055744" by (simp add: round_even_def power_int_minus)
  qed
  then show ?thesis by (simp add: power_int_minus)
qed

lemma rnd_doc_43: "rnd (13) = 13"
proof -
  have "rnd (13) = of_int (7318349394477056) * 2 powi (3 - 52)"
  proof (rule rnd_near)
    show "(2::real) powi (3) \<le> \<bar>13\<bar>" by (simp add: power_int_minus)
    show "\<bar>13 :: real\<bar> < 2 powi (3 + 1)" by (simp add: power_int_minus)
    show "(- 1022 :: int) \<le> 3" by simp
    show "round_even (13 / 2 powi (3 - 52)) = 7318349394477056" by (simp add: round_even_def power_int_minus)
  qed
  then show ?thesis by (simp add: power_int_minus)
qed

lemma rnd_doc_44: "rnd (15) = 15"
proof -
  have "rnd (15) = of_int (8444249301319680) * 2 powi (3 - 52)"
  proof (rule rnd_near)
    show "(2::real) powi (3) \<le> \<bar>15\<bar>" by (simp add: power_int_minus)
    show "\<bar>15 :: real\<bar> < 2 powi (3 + 1)" by (simp add: power_int_minus)
    show "(- 1022 :: int) \<le> 3" by simp
    show "round_even (15 / 2 powi (3 - 52)) = 8444249301319680" by (simp add: round_even_def power_int_minus)
  qed
  then show ?thesis by (simp add: power_int_minus)
qed

lemma rnd_doc_45: "rnd (16) = 16"
proof -
  have "rnd (16) = of_int (4503599627370496) * 2 powi (4 - 52)"
  proof (rule rnd_near)
    show "(2::real) powi (4) \<le> \<bar>16\<bar>" by (simp add: power_int_minus)
    show "\<bar>16 :: real\<bar> < 2 powi (4 + 1)" by (simp add: power_int_minus)
    show "(- 1022 :: int) \<le> 4" by simp
    show "round_even (16 / 2 powi (4 - 52)) = 4503599627370496" by (simp add: round_even_def power_int_minus)
  qed
  then show ?thesis by (simp add: power_int_minus)
qed

lemma rnd_doc_46: "rnd (17) = 17"
proof -
  have "rnd (17) = of_int (4785074604081152) * 2 powi (4 - 52)"
  proof (rule rnd_near)
    show "(2::real) powi (4) \<le> \<bar>17\<bar>" by (simp add: power_int_minus)
    show "\<bar>17 :: real\<bar> < 2 powi (4 + 1)" by (simp add: power_int_minus)
    show "(- 1022 :: int) \<le> 4" by simp
    show "round_even (17 / 2 powi (4 - 52)) = 4785074604081152" by (simp add: round_even_def power_int_minus)
  qed
  then show ?thesis by (simp add: power_int_minus)
qed

lemma rnd_doc_47: "rnd (18) = 18"
proof -
  have "rnd (18) = of_int (5066549580791808) * 2 powi (4 - 52)"
  proof (rule rnd_near)
    show "(2::real) powi (4) \<le> \<bar>18\<bar>" by (simp add: power_int_minus)
    show "\<bar>18 :: real\<bar> < 2 powi (4 + 1)" by (simp add: power_int_minus)
    show "(- 1022 :: int) \<le> 4" by simp
    show "round_even (18 / 2 powi (4 - 52)) = 5066549580791808" by (simp add: round_even_def power_int_minus)
  qed
  then show ?thesis by (simp add: power_int_minus)
qed

lemmas rnd_doc = rnd_doc_0 rnd_doc_1 rnd_doc_2 rnd_doc_3 rnd_doc_4 rnd_doc_5 rnd_doc_6 rnd_doc_7 rnd_doc_8 rnd_doc_9 rnd_doc_10 rnd_doc_11 rnd_doc_12 rnd_doc_13 rnd_doc_14 rnd_doc_15 rnd_doc_16 rnd_doc_17 rnd_doc_18 rnd_doc_19 rnd_doc_20 rnd_doc_21 rnd_doc_22 rnd_doc_23 rnd_doc_24 rnd_doc_25 rnd_doc_26 rnd_doc_27 rnd_doc_28 rnd_doc_29 rnd_doc_30 rnd_doc_31 rnd_doc_32 rnd_doc_33 rnd_doc_34 rnd_doc_35 rnd_doc_36 rnd_doc_37 rnd_doc_38 rnd_doc_39 rnd_doc_40 rnd_doc_41 rnd_doc_42 rnd_doc_43 rnd_doc_44 rnd_doc_45 rnd_doc_46 rnd_doc_47

lemma mean_doc_0: "mean_state 3 [Some (5), Some (5), Some (6), Some (7), Some (5), Some (5), Some (5)] (0) = \<lparr>nobs = 1, compensation_add = 0, compensation_remove = 0, num_consecutive_same_value = 1, prev_value = Some (5), sum_x = 5, neg_ct = 0\<rparr>"
  by (simp add: add_mean_def remove_mean_def Let_def rnd_doc)

lemma mean_doc_1: "mean_state 3 [Some (5), Some (5), Some (6), Some (7), Some (5), Some (5), Some (5)] (Suc 0) = \<lparr>nobs = 2, compensation_add = 0, compensation_remove = 0, num_consecutive_same_value = 2, prev_value = Some (5), sum_x = 10, neg_ct = 0\<rparr>"
  by (simp add: mean_doc_0 add_mean_def remove_mean_def Let_def rnd_doc)

lemma mean_doc_2: "mean_state 3 [Some (5), Some (5), Some (6), Some (7), Some (5), Some (5), Some (5)] (Suc (Suc 0)) = \<lparr>nobs = 3, compensation_add = 0, compensation_remove = 0, num_consecutive_same_value = 1, prev_value = Some (6), sum_x = 16, neg_ct = 0\<rparr>"
  by (simp add: mean_doc_1 add_mean_def remove_mean_def Let_def rnd_doc)

lemma mean_doc_3: "mean_state 3 [Some (5), Some (5), Some (6), Some (7), Some (5), Some (5), Some (5)] (Suc (Suc (Suc 0))) = \<lparr>nobs = 3, compensation_add = 0, compensation_remove = 0, num_consecutive_same_value = 1, prev_value = Some (7), sum_x = 18, neg_ct = 0\<rparr>"
  by (simp add: mean_doc_2 add_mean_def remove_mean_def Let_def rnd_doc)

lemma mean_doc_4: "mean_state 3 [Some (5), Some (5), Some (6), Some (7), Some (5), Some (5), Some (5)] (Suc (Suc (Suc (Suc 0)))) = \<lparr>nobs = 3, compensation_add = 0, compensation_remove = 0, num_consecutive_same_value = 1, prev_value = Some (5), sum_x = 18, neg_ct = 0\<rparr>"
  by (simp add: mean_doc_3 add_mean_def remove_mean_def Let_def rnd_doc)

lemma mean_doc_5: "mean_state 3 [Some (5), Some (5), Some (6), Some (7), Some (5), Some (5), Some (5)] (Suc (Suc (Suc (Suc (Suc 0))))) = \<lparr>nobs = 3, compensation_add = 0, compensation_remove = 0, num_consecutive_same_value = 2, prev_value = Some (5), sum_x = 17, neg_ct = 0\<rparr>"
  by (simp add: mean_doc_4 add_mean_def remove_mean_def Let_def rnd_doc)

lemma mean_doc_6: "mean_state 3 [Some (5), Some (5), Some (6), Some (7), Some (5), Some (5), Some (5)] (Suc (Suc (Suc (Suc (Suc (Suc 0)))))) = \<lparr>nobs = 3, compensation_add = 0, compensation_remove = 0, num_consecutive_same_value = 3, prev_value = Some (5), sum_x = 15, neg_ct = 0\<rparr>"
  by (simp add: mean_doc_5 add_mean_def remove_mean_def Let_def rnd_doc)

lemma var_doc_0: "var_state 3 [Some (5), Some (5), Some (6), Some (7), Some (5), Some (5), Some (5)] (0) = \<lparr>nobs = 1, compensation_add = 0, compensation_remove = 0, num_consecutive_same_value = 1, prev_value = Some (5), mean_x = 5, ssqdm_x = 0\<rparr>"
  by (simp add: add_var_def remove_var_def Let_def rnd_doc)

lemma var_doc_1: "var_state 3 [Some (5), Some (5), Some (6), Some (7), Some (5), Some (5), Some (5)] (Suc 0) = \<lparr>nobs = 2, compensation_add = 0, compensation_remove = 0, num_consecutive_same_value = 2, prev_value = Some (5), mean_x = 5, ssqdm_x = 0\<rparr>"
  by (simp add: var_doc_0 add_var_def remove_var_def Let_def rnd_doc)

lemma var_doc_2: "var_state 3 [Some (5), Some (5), Some (6), Some (7), Some (5), Some (5), Some (5)] (Suc (Suc 0)) = \<lparr>nobs = 3, compensation_add = 0, compensation_remove = 0, num_consecutive_same_value = 1, prev_value = Some (6), mean_x = 6004799503160661 / 1125899906842624, ssqdm_x = 750599937895083 / 1125899906842624\<rparr>"
  by (simp add: var_doc_1 add_var_def remove_var_def Let_def rnd_doc)

lemma var_doc_3: "var_state 3 [Some (5), Some (5), Some (6), Some (7), Some (5), Some (5), Some (5)] (Suc (Suc (Suc 0))) = \<lparr>nobs = 3, compensation_add = 0, compensation_remove = 0, num_consecutive_same_value = 1, prev_value = Some (7), mean_x = 6, ssqdm_x = 4503599627370497 / 2251799813685248\<rparr>"
  by (simp add: var_doc_2 add_var_def remove_var_def Let_def rnd_doc)

lemma var_doc_4: "var_state 3 [Some (5), Some (5), Some (6), Some (7), Some (5), Some (5), Some (5)] (Suc (Suc (Suc (Suc 0)))) = \<lparr>nobs = 3, compensation_add = 0, compensation_remove = 0, num_consecutive_same_value = 1, prev_value = Some (5), mean_x = 6, ssqdm_x = 4503599627370497 / 2251799813685248\<rparr>"
  by (simp add: var_doc_3 add_var_def remove_var_def Let_def rnd_doc)

lemma var_doc_5: "var_state 3 [Some (5), Some (5), Some (6), Some (7), Some (5), Some (5), Some (5)] (Suc (Suc (Suc (Suc (Suc 0))))) = \<lparr>nobs = 3, compensation_add = 0, compensation_remove = 0, num_consecutive_same_value = 2, prev_value = Some (5), mean_x = 6380099472108203 / 1125899906842624, ssqdm_x = 6004799503160663 / 2251799813685248\<rparr>"
  by (simp add: var_doc_4 add_var_def remove_var_def Let_def rnd_doc)

lemma var_doc_6: "var_state 3 [Some (5), Some (5), Some (6), Some (7), Some (5), Some (5), Some (5)] (Suc (Suc (Suc (Suc (Suc (Suc 0)))))) = \<lparr>nobs = 3, compensation_add = 0, compensation_remove = 0, num_consecutive_same_value = 3, prev_value = Some (5), mean_x = 5, ssqdm_x = 3 / 2251799813685248\<rparr>"
  by (simp add: var_doc_5 add_var_def remove_var_def Let_def rnd_doc)

lemma rnd_sqrt_doc_2: "rnd (sqrt (750599937895083 / 2251799813685248)) = 5200308914369309 / 9007199254740992"
proof -
  let ?a = "750599937895083 / 2251799813685248 :: real"
  have lo: "5200308914369309 / 9007199254740992 \<le> sqrt ?a"
    by (rule real_le_rsqrt) (simp add: power2_eq_square)
  have hi: "sqrt ?a < 10400617828738619 / 18014398509481984"
    by (rule real_less_lsqrt) (simp_all add: power2_eq_square)
  have e1: "2 powi (- 1) \<le> sqrt ?a"
    by (rule real_le_rsqrt) (simp add: power2_eq_square power_int_minus)
  have e2: "sqrt ?a < 2 powi (- 1 + 1)"
    by (rule real_less_lsqrt) (simp_all add: power2_eq_square power_int_minus)
  have "rnd (sqrt ?a) = of_int 5200308914369309 * 2 powi (- 1 - 52)"
  proof (rule rnd_near)
    show "2 powi (- 1) \<le> \<bar>sqrt ?a\<bar>" using e1 by simp
    show "\<bar>sqrt ?a\<bar> < 2 powi (- 1 + 1)" using e2 by simp
    show "(- 1022 :: int) \<le> - 1" by simp
    show "round_even (sqrt ?a / 2 powi (- 1 - 52)) = 5200308914369309"
    proof (rule round_even_interval)
      show "of_int 5200308914369309 \<le> sqrt ?a / 2 powi (- 1 - 52)"
        using lo by (simp add: power_int_minus field_simps)
      show "sqrt ?a / 2 powi (- 1 - 52) < of_int 5200308914369309 + 1 / 2"
        using hi by (simp add: power_int_minus field_simps)
    qed
  qed
  then show ?thesis by (simp add: power_int_minus)
qed

lemma rnd_sqrt_doc_3: "rnd (sqrt (4503599627370497 / 4503599627370496)) = 1"
proof -
  let ?a = "4503599627370497 / 4503599627370496 :: real"
  have lo: "1 \<le> sqrt ?a"
    by (rule real_le_rsqrt) (simp add: power2_eq_square)
  have hi: "sqrt ?a < 9007199254740993 / 9007199254740992"
    by (rule real_less_lsqrt) (simp_all add: power2_eq_square)
  have e1: "2 powi (0) \<le> sqrt ?a"
    by (rule real_le_rsqrt) (simp add: power2_eq_square power_int_minus)
  have e2: "sqrt ?a < 2 powi (0 + 1)"
    by (rule real_less_lsqrt) (simp_all add: power2_eq_square power_int_minus)
  have "rnd (sqrt ?a) = of_int 4503599627370496 * 2 powi (0 - 52)"
  proof (rule rnd_near)
    show "2 powi (0) \<le> \<bar>sqrt ?a\<bar>" using e1 by simp
    show "\<bar>sqrt ?a\<bar> < 2 powi (0 + 1)" using e2 by simp
    show "(- 1022 :: int) \<le> 0" by simp
    show "round_even (sqrt ?a / 2 powi (0 - 52)) = 4503599627370496"
    proof (rule round_even_interval)
      show "of_int 4503599627370496 \<le> sqrt ?a / 2 powi (0 - 52)"
        using lo by (simp add: power_int_minus field_simps)
      show "sqrt ?a / 2 powi (0 - 52) < of_int 4503599627370496 + 1 / 2"
        using hi by (simp add: power_int_minus field_simps)
    qed
  qed
  then show ?thesis by (simp add: power_int_minus)
qed

lemma rnd_sqrt_doc_5: "rnd (sqrt (6004799503160663 / 4503599627370496)) = 5200308914369309 / 4503599627370496"
proof -
  let ?a = "6004799503160663 / 4503599627370496 :: real"
  have lo: "5200308914369309 / 4503599627370496 \<le> sqrt ?a"
    by (rule real_le_rsqrt) (simp add: power2_eq_square)
  have hi: "sqrt ?a < 10400617828738619 / 9007199254740992"
    by (rule real_less_lsqrt) (simp_all add: power2_eq_square)
  have e1: "2 powi (0) \<le> sqrt ?a"
    by (rule real_le_rsqrt) (simp add: power2_eq_square power_int_minus)
  have e2: "sqrt ?a < 2 powi (0 + 1)"
    by (rule real_less_lsqrt) (simp_all add: power2_eq_square power_int_minus)
  have "rnd (sqrt ?a) = of_int 5200308914369309 * 2 powi (0 - 52)"
  proof (rule rnd_near)
    show "2 powi (0) \<le> \<bar>sqrt ?a\<bar>" using e1 by simp
    show "\<bar>sqrt ?a\<bar> < 2 powi (0 + 1)" using e2 by simp
    show "(- 1022 :: int) \<le> 0" by simp
    show "round_even (sqrt ?a / 2 powi (0 - 52)) = 5200308914369309"
    proof (rule round_even_interval)
      show "of_int 5200308914369309 \<le> sqrt ?a / 2 powi (0 - 52)"
        using lo by (simp add: power_int_minus field_simps)
      show "sqrt ?a / 2 powi (0 - 52) < of_int 5200308914369309 + 1 / 2"
        using hi by (simp add: power_int_minus field_simps)
    qed
  qed
  then show ?thesis by (simp add: power_int_minus)
qed

lemma rnd_doc_band_0: "rnd (5200308914369309 / 4503599627370496) = 5200308914369309 / 4503599627370496"
proof -
  have "rnd (5200308914369309 / 4503599627370496) = of_int (5200308914369309) * 2 powi (0 - 52)"
  proof (rule rnd_near)
    show "(2::real) powi (0) \<le> \<bar>5200308914369309 / 4503599627370496\<bar>" by (simp add: power_int_minus)
    show "\<bar>5200308914369309 / 4503599627370496 :: real\<bar> < 2 powi (0 + 1)" by (simp add: power_int_minus)
    show "(- 1022 :: int) \<le> 0" by simp
    show "round_even (5200308914369309 / 4503599627370496 / 2 powi (0 - 52)) = 5200308914369309" by (simp add: round_even_def power_int_minus)
  qed
  then show ?thesis by (simp add: power_int_minus)
qed

lemma rnd_doc_band_1: "rnd (2) = 2"
proof -
  have "rnd (2) = of_int (4503599627370496) * 2 powi (1 - 52)"
  proof (rule rnd_near)
    show "(2::real) powi (1) \<le> \<bar>2\<bar>" by (simp add: power_int_minus)
    show "\<bar>2 :: real\<bar> < 2 powi (1 + 1)" by (simp add: power_int_minus)
    show "(- 1022 :: int) \<le> 1" by simp
    show "round_even (2 / 2 powi (1 - 52)) = 4503599627370496" by (simp add: round_even_def power_int_minus)
  qed
  then show ?thesis by (simp add: power_int_minus)
qed

lemma rnd_doc_band_2: "rnd (5200308914369309 / 2251799813685248) = 5200308914369309 / 2251799813685248"
proof -
  have "rnd (5200308914369309 / 2251799813685248) = of_int (5200308914369309) * 2 powi (1 - 52)"
  proof (rule rnd_near)
    show "(2::real) powi (1) \<le> \<bar>5200308914369309 / 2251799813685248\<bar>" by (simp add: power_int_minus)
    show "\<bar>5200308914369309 / 2251799813685248 :: real\<bar> < 2 powi (1 + 1)" by (simp add: power_int_minus)
    show "(- 1022 :: int) \<le> 1" by simp
    show "round_even (5200308914369309 / 2251799813685248 / 2 powi (1 - 52)) = 5200308914369309" by (simp add: round_even_def power_int_minus)
  qed
  then show ?thesis by (simp add: power_int_minus)
qed

lemma rnd_doc_band_3: "rnd (7559890029847097 / 2251799813685248) = 7559890029847097 / 2251799813685248"
proof -
  have "rnd (7559890029847097 / 2251799813685248) = of_int (7559890029847097) * 2 powi (1 - 52)"
  proof (rule rnd_near)
    show "(2::real) powi (1) \<le> \<bar>7559890029847097 / 2251799813685248\<bar>" by (simp add: power_int_minus)
    show "\<bar>7559890029847097 / 2251799813685248 :: real\<bar> < 2 powi (1 + 1)" by (simp add: power_int_minus)
    show "(- 1022 :: int) \<le> 1" by simp
    show "round_even (7559890029847097 / 2251799813685248 / 2 powi (1 - 52)) = 7559890029847097" by (simp add: round_even_def power_int_minus)
  qed
  then show ?thesis by (simp add: power_int_minus)
qed

lemma rnd_doc_band_4: "rnd (4) = 4"
proof -
  have "rnd (4) = of_int (4503599627370496) * 2 powi (2 - 52)"
  proof (rule rnd_near)
    show "(2::real) powi (2) \<le> \<bar>4\<bar>" by (simp add: power_int_minus)
    show "\<bar>4 :: real\<bar> < 2 powi (2 + 1)" by (simp add: power_int_minus)
    show "(- 1022 :: int) \<le> 2" by simp
    show "round_even (4 / 2 powi (2 - 52)) = 4503599627370496" by (simp add: round_even_def power_int_minus)
  qed
  then show ?thesis by (simp add: power_int_minus)
qed

lemma rnd_doc_band_5: "rnd (18818889098273335 / 4503599627370496) = 2352361137284167 / 562949953421312"
proof -
  have "rnd (18818889098273335 / 4503599627370496) = of_int (4704722274568334) * 2 powi (2 - 52)"
  proof (rule rnd_near)
    show "(2::real) powi (2) \<le> \<bar>18818889098273335 / 4503599627370496\<bar>" by (simp add: power_int_minus)
    show "\<bar>18818889098273335 / 4503599627370496 :: real\<bar> < 2 powi (2 + 1)" by (simp add: power_int_minus)
    show "(- 1022 :: int) \<le> 2" by simp
    show "round_even (18818889098273335 / 4503599627370496 / 2 powi (2 - 52)) = 4704722274568334" by (simp add: round_even_def power_int_minus)
  qed
  then show ?thesis by (simp add: power_int_minus)
qed

lemma rnd_doc_band_6: "rnd (5) = 5"
proof -
  have "rnd (5) = of_int (5629499534213120) * 2 powi (2 - 52)"
  proof (rule rnd_near)
    show "(2::real) powi (2) \<le> \<bar>5\<bar>" by (simp add: power_int_minus)
    show "\<bar>5 :: real\<bar> < 2 powi (2 + 1)" by (simp add: power_int_minus)
    show "(- 1022 :: int) \<le> 2" by simp
    show "round_even (5 / 2 powi (2 - 52)) = 5629499534213120" by (simp add: round_even_def power_int_minus)
  qed
  then show ?thesis by (simp add: power_int_minus)
qed

lemma rnd_doc_band_7: "rnd (29219506927011953 / 4503599627370496) = 1826219182938247 / 281474976710656"
proof -
  have "rnd (29219506927011953 / 4503599627370496) = of_int (7304876731752988) * 2 powi (2 - 52)"
  proof (rule rnd_near)
    show "(2::real) powi (2) \<le> \<bar>29219506927011953 / 4503599627370496\<bar>" by (simp add: power_int_minus)
    show "\<bar>29219506927011953 / 4503599627370496 :: real\<bar> < 2 powi (2 + 1)" by (simp add: power_int_minus)
    show "(- 1022 :: int) \<le> 2" by simp
    show "round_even (29219506927011953 / 4503599627370496 / 2 powi (2 - 52)) = 7304876731752988" by (simp add: round_even_def power_int_minus)
  qed
  then show ?thesis by (simp add: power_int_minus)
qed

lemma rnd_doc_band_8: "rnd (17960507858585715 / 2251799813685248) = 4490126964646429 / 562949953421312"
proof -
  have "rnd (17960507858585715 / 2251799813685248) = of_int (8980253929292858) * 2 powi (2 - 52)"
  proof (rule rnd_near)
    show "(2::real) powi (2) \<le> \<bar>17960507858585715 / 2251799813685248\<bar>" by (simp add: power_int_minus)
    show "\<bar>17960507858585715 / 2251799813685248 :: real\<bar> < 2 powi (2 + 1)" by (simp add: power_int_minus)
    show "(- 1022 :: int) \<le> 2" by simp
    show "round_even (17960507858585715 / 2251799813685248 / 2 powi (2 - 52)) = 8980253929292858" by (simp add: round_even_def power_int_minus)
  qed
  then show ?thesis by (simp add: power_int_minus)
qed

lemma rnd_doc_band_9: "rnd (8) = 8"
proof -
  have "rnd (8) = of_int (4503599627370496) * 2 powi (3 - 52)"
  proof (rule rnd_near)
    show "(2::real) powi (3) \<le> \<bar>8\<bar>" by (simp add: power_int_minus)
    show "\<bar>8 :: real\<bar> < 2 powi (3 + 1)" by (simp add: power_int_minus)
    show "(- 1022 :: int) \<le> 3" by simp
    show "round_even (8 / 2 powi (3 - 52)) = 4503599627370496" by (simp add: round_even_def power_int_minus)
  qed
  then show ?thesis by (simp add: power_int_minus)
qed

lemmas rnd_doc_band = rnd_doc_band_0 rnd_doc_band_1 rnd_doc_band_2 rnd_doc_band_3 rnd_doc_band_4 rnd_doc_band_5 rnd_doc_band_6 rnd_doc_band_7 rnd_doc_band_8 rnd_doc_band_9

lemma rolling_mean_doc:
  "rolling_mean 3 3 [Some 5, Some 5, Some 6, Some 7, Some 5, Some 5, Some 5] =
     [None, None, Some (6004799503160661 / 1125899906842624), Some 6, Some 6, Some (6380099472108203 / 1125899906842624), Some 5]"
  by (simp add: rolling_mean_def calc_mean_def Let_def mean_doc_0 mean_doc_1 mean_doc_2 mean_doc_3 mean_doc_4 mean_doc_5 mean_doc_6 rnd_doc
      del: mean_state.simps)

lemma rolling_std_doc:
  "rolling_std 3 3 [Some 5, Some 5, Some 6, Some 7, Some 5, Some 5, Some 5] =
     [None, None, Some (5200308914369309 / 9007199254740992), Some 1, Some 1, Some (5200308914369309 / 4503599627370496), Some 0]"
  by (simp add: rolling_std_def calc_var_def zsqrt_def Let_def var_doc_0 var_doc_1 var_doc_2 var_doc_3 var_doc_4 var_doc_5 var_doc_6 rnd_doc rnd_sqrt_doc_2 rnd_sqrt_doc_3 rnd_sqrt_doc_5
      del: var_state.simps)
























































subsection \<open>Seasonal band\<close>

lemma set_dropna: "set (dropna xs) = {x. Some x \<in> set xs}"
  by (induction xs) (auto split: option.splits)

lemma distinct_group_keys: "distinct (group_keys df)"
  by (simp add: group_keys_def)

lemma set_group_keys: "set (group_keys df) = {k. \<exists>r\<in>set df. season r = Some k}"
proof -
  have "(Some k \<in> season ` set df) = (\<exists>r\<in>set df. season r = Some k)" for k
    by (metis (no_types, lifting) image_iff)
  then show ?thesis
    by (simp add: group_keys_def set_dropna)
qed

lemma filter_eq_distinct:
  "distinct ks \<Longrightarrow> filter (\<lambda>k. k = a) ks = (if a \<in> set ks then [a] else [])"
  by (induction ks) auto

lemma filter_groupby_season_Some:
  "filter (\<lambda>st. fst st = Some k) (groupby_season df) =
     (if k \<in> set (group_keys df)
      then [(Some k, group_mean (map temperature (filter (\<lambda>r. season r = Some k) df)),
                     group_std (map temperature (filter (\<lambda>r. season r = Some k) df)))]
      else [])"
proof -
  have "filter (\<lambda>st. fst st = Some k) (groupby_season df) =
        map (\<lambda>k. (Some k, group_mean (map temperature (filter (\<lambda>r. season r = Some k) df)),
                     group_std (map temperature (filter (\<lambda>r. season r = Some k) df))))
          (filter (\<lambda>k'. k' = k) (group_keys df))"
    by (simp add: groupby_season_def filter_map comp_def Let_def)
  then show ?thesis
    by (simp add: filter_eq_distinct [OF distinct_group_keys])
qed

lemma filter_groupby_season_None:
  "filter (\<lambda>st. fst st = None) (groupby_season df) = []"
  by (simp add: groupby_season_def filter_map comp_def Let_def)

lemma merge_left_groupby_season:
  assumes "set df' \<subseteq> set df"
  shows "merge_left df' (groupby_season df) = map (\<lambda>r. (r, season_lookup df r)) df'"
  using assms
proof (induction df')
  case Nil
  then show ?case by (simp add: merge_left_def)
next
  case (Cons r df')
  then have ih: "merge_left df' (groupby_season df) = map (\<lambda>r. (r, season_lookup df r)) df'"
    and r: "r \<in> set df" by auto
  have "(case filter (\<lambda>st. fst st = season r) (groupby_season df) of
           [] \<Rightarrow> [(r, None, None)]
         | ms \<Rightarrow> map (\<lambda>st. (r, fst (snd st), snd (snd st))) ms) = [(r, season_lookup df r)]"
  proof (cases "season r")
    case None
    then show ?thesis by (simp add: filter_groupby_season_None season_lookup_def)
  next
    case (Some k)
    then have "k \<in> set (group_keys df)" using r by (auto simp: set_group_keys)
    then show ?thesis using Some by (simp add: filter_groupby_season_Some season_lookup_def)
  qed
  then show ?case using ih by (simp add: merge_left_def)
qed

lemma group_std_single: "length xs \<le> 1 \<Longrightarrow> group_std xs = None"
  using length_dropna_le [of xs] by (simp add: group_std_def Let_def)

text \<open>
  C3. When a season occurs in exactly one reading of a series, the statistics have one row
  for that season and its standard deviation is undefined (NaN); the seasonal detector
  returns a frame with the rows of the series, and at every reading of that season the
  bounds are undefined and \<open>season_anomaly\<close> is false. The detector has no failing branch.
\<close>

theorem season_single_reading_no_anomaly:
  assumes "length (filter (\<lambda>r. season r = Some s) df) = 1"
  shows "(\<exists>m. filter (\<lambda>st. fst st = Some s) (season_stats_for_city df) = [(Some s, m, None)]) \<and>
     (let d = add_season_bounds df (season_stats_for_city df) in
        rows d = df \<and> length (season_anomaly d) = length df \<and>
        (\<forall>i<length df. season (df ! i) = Some s \<longrightarrow>
           season_std d ! i = None \<and> season_upper d ! i = None \<and>
           season_lower d ! i = None \<and> \<not> season_anomaly d ! i))"
proof -
  let ?g = "map temperature (filter (\<lambda>r. season r = Some s) df)"
  have std: "group_std ?g = None"
    using assms by (intro group_std_single) simp
  have "filter (\<lambda>r. season r = Some s) df \<noteq> []" using assms by auto
  then have "\<exists>r\<in>set df. season r = Some s"
    by (auto simp: filter_empty_conv)
  then have key: "s \<in> set (group_keys df)" by (simp add: set_group_keys)
  have stats: "filter (\<lambda>st. fst st = Some s) (season_stats_for_city df) = [(Some s, group_mean ?g, None)]"
    using key std by (simp add: season_stats_for_city_def filter_groupby_season_Some)
  have m: "merge_left df (season_stats_for_city df) = map (\<lambda>r. (r, season_lookup df r)) df"
    by (simp add: season_stats_for_city_def merge_left_groupby_season)
  let ?d = "add_season_bounds df (season_stats_for_city df)"
  have rows: "rows ?d = df"
    by (simp add: add_season_bounds_def Let_def m comp_def)
  have len: "length (season_anomaly ?d) = length df"
    by (simp add: add_season_bounds_def Let_def m)
  have row: "season_std ?d ! i = None \<and> season_upper ?d ! i = None \<and>
           season_lower ?d ! i = None \<and> \<not> season_anomaly ?d ! i"
    if "i < length df" "season (df ! i) = Some s" for i
  proof -
    have "snd (season_lookup df (df ! i)) = None"
      using that(2) std by (simp add: season_lookup_def)
    then show ?thesis using that(1)
      by (simp add: add_season_bounds_def Let_def m fadd_def fsub_def fmul_def fgt_def flt_def
          split: option.splits)
  qed
  show ?thesis using stats rows len row by (auto simp: Let_def)
qed

theorem season_single_reading_no_anomaly_witness:
  "length (filter (\<lambda>r. season r = Some ''summer'')
      [\<lparr>city = ''A'', timestamp = Some 0, temperature = Some 1, season = Some ''winter''\<rparr>,
       \<lparr>city = ''A'', timestamp = Some 1, temperature = Some 3, season = Some ''winter''\<rparr>,
       \<lparr>city = ''A'', timestamp = Some 2, temperature = Some 40, season = Some ''summer''\<rparr>]) = 1 \<and>
   season_stats_for_city
      [\<lparr>city = ''A'', timestamp = Some 0, temperature = Some 1, season = Some ''winter''\<rparr>,
       \<lparr>city = ''A'', timestamp = Some 1, temperature = Some 3, season = Some ''winter''\<rparr>,
       \<lparr>city = ''A'', timestamp = Some 2, temperature = Some 40, season = Some ''summer''\<rparr>]
     = [(Some ''summer'', Some 40, None), (Some ''winter'', Some 2, Some (sqrt 2))] \<and>
   \<not> season_anomaly (add_season_bounds
      [\<lparr>city = ''A'', timestamp = Some 0, temperature = Some 1, season = Some ''winter''\<rparr>,
       \<lparr>city = ''A'', timestamp = Some 1, temperature = Some 3, season = Some ''winter''\<rparr>,
       \<lparr>city = ''A'', timestamp = Some 2, temperature = Some 40, season = Some ''summer''\<rparr>]
      (season_stats_for_city
      [\<lparr>city = ''A'', timestamp = Some 0, temperature = Some 1, season = Some ''winter''\<rparr>,
       \<lparr>city = ''A'', timestamp = Some 1, temperature = Some 3, season = Some ''winter''\<rparr>,
       \<lparr>city = ''A'', timestamp = Some 2, temperature = Some 40, season = Some ''summer''\<rparr>])) ! 2"
  using season_single_reading_no_anomaly [of "''summer''"
      "[\<lparr>city = ''A'', timestamp = Some 0, temperature = Some 1, season = Some ''winter''\<rparr>,
       \<lparr>city = ''A'', timestamp = Some 1, temperature = Some 3, season = Some ''winter''\<rparr>,
       \<lparr>city = ''A'', timestamp = Some 2, temperature = Some 40, season = Some ''summer''\<rparr>]"]
  by (simp add: Let_def season_stats_for_city_def groupby_season_def group_keys_def
      group_mean_def group_std_def obs_mean_def obs_var_def)

subsection \<open>Batch benchmark harness\<close>

lemma map_fst_dict_set:
  "map fst (dict_set g k v) = (if k \<in> set (map fst g) then map fst g else map fst g @ [k])"
  by (induction g k v rule: dict_set.induct) auto

lemma set_dict_set: "set (dict_set g k v) \<subseteq> insert (k, v) (set g)"
  by (induction g k v rule: dict_set.induct) auto

lemma fold_dict_set_keys:
  "distinct (map fst g) \<Longrightarrow>
   distinct (map fst (fold (\<lambda>c g. dict_set g c (F c)) cs g)) \<and>
   set (map fst (fold (\<lambda>c g. dict_set g c (F c)) cs g)) = set (map fst g) \<union> set cs"
proof (induction cs arbitrary: g)
  case Nil
  then show ?case by simp
next
  case (Cons c cs)
  have d: "distinct (map fst (dict_set g c (F c)))"
    using Cons.prems by (simp add: map_fst_dict_set)
  show ?case
    using Cons.IH [OF d] by (auto simp: map_fst_dict_set)
qed

lemma fold_dict_set_values:
  "\<forall>(c, v)\<in>set g. v = F c \<Longrightarrow>
   \<forall>(c, v)\<in>set (fold (\<lambda>c g. dict_set g c (F c)) cs g). v = F c"
proof (induction cs arbitrary: g)
  case Nil
  then show ?case by simp
next
  case (Cons c cs)
  have "\<forall>(c', v)\<in>set (dict_set g c (F c)). v = F c'"
    using Cons.prems set_dict_set [of g c "F c"] by auto
  from Cons.IH [OF this] show ?case by simp
qed

lemma city_groups_keys:
  "distinct (map fst (city_groups df cities))"
  "set (map fst (city_groups df cities)) = set cities"
  using fold_dict_set_keys [of "[]" "\<lambda>c. filter (\<lambda>r. city r = c) df" cities]
  by (simp_all add: city_groups_def)

lemma city_groups_values:
  "(c, v) \<in> set (city_groups df cities) \<Longrightarrow> v = filter (\<lambda>r. city r = c) df"
  using fold_dict_set_values [of "[]" "\<lambda>c. filter (\<lambda>r. city r = c) df" cities]
  by (auto simp: city_groups_def)

lemma city_groups_empty_iff: "city_groups df cities = [] \<longleftrightarrow> cities = []"
  using city_groups_keys(2) [of df cities] by (metis list.map_disc_iff set_empty)

lemma length_sort_values_timestamp [simp]:
  "length (sort_values_timestamp tie df) = length df"
proof -
  have "length (filter (\<lambda>r. timestamp r \<noteq> None) df) + length (filter (\<lambda>r. timestamp r = None) df)
        = length df"
    using sum_length_filter_compl [of "\<lambda>r. timestamp r \<noteq> None" df] by simp
  then show ?thesis by (simp add: sort_values_timestamp_def Let_def)
qed

lemma sort_values_timestamp_Nil_iff [simp]: "sort_values_timestamp tie df = [] \<longleftrightarrow> df = []"
  by (metis length_0_conv length_sort_values_timestamp)

lemma analyze_city_block_ok:
  "0 \<le> w \<Longrightarrow> w < 2 ^ 63 \<or> d = [] \<Longrightarrow> \<exists>r. analyze_city_block tie c d w = Inr r \<and> city r = c"
  by (auto simp: analyze_city_block_def Let_def)


lemma analyze_city_block_overflow:
  "2 ^ 63 \<le> w \<Longrightarrow> d \<noteq> [] \<Longrightarrow> analyze_city_block tie c d w = Inl OverflowError"
  by (simp add: analyze_city_block_def Let_def)

lemma analyze_city_block_cases:
  "analyze_city_block tie c d w = Inl (window_error w) \<or>
   (\<exists>r. analyze_city_block tie c d w = Inr r \<and> city r = c)"
  by (auto simp: analyze_city_block_def window_error_def Let_def)

lemma run_sequential_collect:
  "run_sequential tie groups w acc = collect_results (futures_of tie groups w) acc"
  by (induction tie groups w acc rule: run_sequential.induct)
     (auto simp: futures_of_def split: sum.splits)

lemma collect_results_ok: "collect_results (map Inr rs) acc = Inr (acc @ rs)"
  by (induction rs arbitrary: acc) auto


lemma collect_results_some_failed:
  assumes "\<forall>f\<in>set fs. f = Inl e \<or> (\<exists>r. f = Inr r)" "Inl e \<in> set fs"
  shows "collect_results fs acc = Inl e"
  using assms
proof (induction fs arbitrary: acc)
  case Nil
  then show ?case by simp
next
  case (Cons f fs)
  show ?case
  proof (cases f)
    case (Inl e')
    with Cons.prems(1) have "e' = e" by auto
    with Inl show ?thesis by simp
  next
    case (Inr r)
    with Cons.prems have "Inl e \<in> set fs" "\<forall>f\<in>set fs. f = Inl e \<or> (\<exists>r. f = Inr r)" by auto
    with Cons.IH Inr show ?thesis by simp
  qed
qed

lemma length_futures_of [simp]: "length (futures_of tie groups w) = length groups"
  by (simp add: futures_of_def)

lemma futures_of_cases:
  "\<forall>f\<in>set (futures_of tie groups w). f = Inl (window_error w) \<or> (\<exists>r. f = Inr r)"
  using analyze_city_block_cases by (fastforce simp: futures_of_def)

lemma futures_all_ok:
  assumes "Inl (window_error w) \<notin> set (futures_of tie groups w)"
  shows "\<exists>rs. futures_of tie groups w = map Inr rs \<and> map city rs = map fst groups"
  using assms
proof (induction groups)
  case Nil
  then show ?case by (simp add: futures_of_def)
next
  case (Cons g groups)
  obtain c d where g: "g = (c, d)" by (cases g)
  from Cons.prems have tl: "Inl (window_error w) \<notin> set (futures_of tie groups w)"
    and hd: "analyze_city_block tie c d w \<noteq> Inl (window_error w)"
    by (auto simp: futures_of_def g)
  from Cons.IH [OF tl] obtain rs
    where rs: "futures_of tie groups w = map Inr rs" "map city rs = map fst groups" by blast
  from analyze_city_block_cases [of tie c d w] hd obtain r
    where r: "analyze_city_block tie c d w = Inr r" "city r = c" by blast
  have "futures_of tie (g # groups) w = map Inr (r # rs) \<and> map city (r # rs) = map fst (g # groups)"
    using rs r g by (simp add: futures_of_def)
  then show ?case by blast
qed

lemma futures_ok:
  assumes "0 \<le> w" "w < 2 ^ 63"
  shows "\<exists>rs. futures_of tie groups w = map Inr rs \<and> map city rs = map fst groups"
proof (rule futures_all_ok)
  show "Inl (window_error w) \<notin> set (futures_of tie groups w)"
  proof
    assume "Inl (window_error w) \<in> set (futures_of tie groups w)"
    then obtain c d where "analyze_city_block tie c d w = Inl (window_error w)"
      by (auto simp: futures_of_def)
    moreover from analyze_city_block_ok [of w d tie c] assms
    obtain r where "analyze_city_block tie c d w = Inr r" by auto
    ultimately show False by simp
  qed
qed


lemma run_parallel_collect:
  "0 < workers \<Longrightarrow>
   run_parallel tie groups w workers order =
     collect_results (map (\<lambda>i. futures_of tie groups w ! i) order) []"
  by (simp add: run_parallel_def futures_of_def Let_def)

lemma mset_map_nth_perm:
  assumes "mset order = mset [0..<length xs]"
  shows "mset (map (\<lambda>i. xs ! i) order) = mset xs"
proof -
  have "mset (map (\<lambda>i. xs ! i) order) = image_mset (\<lambda>i. xs ! i) (mset order)" by simp
  also have "\<dots> = mset (map (\<lambda>i. xs ! i) [0..<length xs])" using assms by simp
  finally show ?thesis by (simp add: map_nth)
qed

lemma map_nth_map_Inr:
  assumes "set order \<subseteq> {0..<length rs}"
  shows "map (\<lambda>i. map Inr rs ! i) order = map Inr (map (\<lambda>i. rs ! i) order)"
  using assms by (induction order) auto

lemma perm_order_set:
  "mset order = mset [0..<n] \<Longrightarrow> set order = {0..<n}"
  by (metis mset_eq_setD set_upt)

lemma strategies_all_ok:
  assumes "Inl (window_error w) \<notin> set (futures_of tie groups w)" "0 < workers"
    and "mset order = mset [0..<length groups]"
  shows "\<exists>rs rs'. run_sequential tie groups w [] = Inr rs \<and>
           run_parallel tie groups w workers order = Inr rs' \<and>
           map city rs = map fst groups \<and> mset rs' = mset rs"
proof -
  from futures_all_ok [OF assms(1)] obtain rs
    where rs: "futures_of tie groups w = map Inr rs" "map city rs = map fst groups" by blast
  have len: "length rs = length groups" using rs(2) by (metis length_map)
  have seq: "run_sequential tie groups w [] = Inr rs"
    by (simp add: run_sequential_collect rs(1) collect_results_ok)
  have "set order \<subseteq> {0..<length rs}"
    using perm_order_set [OF assms(3)] len by simp
  then have "map (\<lambda>i. futures_of tie groups w ! i) order = map Inr (map (\<lambda>i. rs ! i) order)"
    unfolding rs(1) by (rule map_nth_map_Inr)
  then have "collect_results (map (\<lambda>i. futures_of tie groups w ! i) order) [] =
      Inr ([] @ map (\<lambda>i. rs ! i) order)"
    by (simp only: collect_results_ok)
  then have par: "run_parallel tie groups w workers order = Inr (map (\<lambda>i. rs ! i) order)"
    using assms(2) by (simp add: run_parallel_collect)
  have "mset (map (\<lambda>i. rs ! i) order) = mset rs"
    using assms(3) len by (intro mset_map_nth_perm) simp
  then show ?thesis using seq par rs(2) by blast
qed

lemma strategies_ok:
  assumes "0 \<le> w" "w < 2 ^ 63" "0 < workers" "mset order = mset [0..<length groups]"
  shows "\<exists>rs rs'. run_sequential tie groups w [] = Inr rs \<and>
           run_parallel tie groups w workers order = Inr rs' \<and>
           map city rs = map fst groups \<and> mset rs' = mset rs"
proof (rule strategies_all_ok [OF _ assms(3,4)])
  from futures_ok [OF assms(1,2), of tie groups] obtain rs
    where "futures_of tie groups w = map Inr rs" by blast
  then show "Inl (window_error w) \<notin> set (futures_of tie groups w)" by auto
qed

lemma strategies_some_failed:
  assumes "Inl (window_error w) \<in> set (futures_of tie groups w)" "0 < workers"
    and "mset order = mset [0..<length groups]"
  shows "run_sequential tie groups w [] = Inl (window_error w) \<and>
         run_parallel tie groups w workers order = Inl (window_error w)"
proof -
  let ?fs = "futures_of tie groups w"
  have seq: "run_sequential tie groups w [] = Inl (window_error w)"
    using collect_results_some_failed [OF futures_of_cases assms(1)]
    by (simp add: run_sequential_collect)
  have "mset (map (\<lambda>i. ?fs ! i) order) = mset ?fs"
    using assms(3) by (intro mset_map_nth_perm) simp
  then have s: "set (map (\<lambda>i. ?fs ! i) order) = set ?fs" by (rule mset_eq_setD)
  have "collect_results (map (\<lambda>i. ?fs ! i) order) [] = Inl (window_error w)"
  proof (rule collect_results_some_failed)
    show "\<forall>f\<in>set (map (\<lambda>i. ?fs ! i) order). f = Inl (window_error w) \<or> (\<exists>r. f = Inr r)"
      unfolding s by (rule futures_of_cases)
    show "Inl (window_error w) \<in> set (map (\<lambda>i. ?fs ! i) order)"
      unfolding s by (rule assms(1))
  qed
  then have "run_parallel tie groups w workers order = Inl (window_error w)"
    using assms(2) by (simp add: run_parallel_collect)
  with seq show ?thesis by simp
qed

lemma sort_key_city_perm:
  assumes "mset rs' = mset rs" "distinct (map city rs)"
  shows "sort_key city rs' = sort_key city rs"
proof -
  have "inj_on city (set rs)" using assms(2) by (simp add: distinct_map)
  then have "inj_on city (set rs')" using assms(1) by (metis mset_eq_setD)
  with assms(1) show ?thesis by (intro sort_key_eq_sort_key) simp_all
qed

text \<open>
  C4. For every table, city list and window, with a pool of at least one worker and
  whatever the order in which the tasks complete, the sequential and the parallel strategy
  produce the same outcome: the same per-city results, field by field, once both are
  sorted by city name, or the same exception.
\<close>

theorem sequential_parallel_equivalent:
  assumes "1 \<le> workers" and "mset order = mset [0..<length (city_groups df cities)]"
  shows "map_sum id (sort_key city) (run_sequential tie (city_groups df cities) window []) =
         map_sum id (sort_key city) (run_parallel tie (city_groups df cities) window workers order)"
proof (cases "Inl (window_error window) \<in> set (futures_of tie (city_groups df cities) window)")
  case False
  from assms(1) have w: "0 < workers" by simp
  from strategies_all_ok [OF False w assms(2)] obtain rs rs' where
    r: "run_sequential tie (city_groups df cities) window [] = Inr rs"
       "run_parallel tie (city_groups df cities) window workers order = Inr rs'"
       "map city rs = map fst (city_groups df cities)" "mset rs' = mset rs"
    by blast
  have "distinct (map city rs)" using r(3) city_groups_keys(1) [of df cities] by simp
  then show ?thesis using r sort_key_city_perm [of rs' rs] by simp
next
  case True
  from assms(1) have w: "0 < workers" by simp
  from strategies_some_failed [OF True w assms(2)] show ?thesis by simp
qed

lemma benchmark_historical_ok:
  assumes "0 \<le> window" "window < 2 ^ 63" "1 \<le> workers" "cities \<noteq> []"
    and "mset order = mset [0..<length (city_groups df cities)]"
  shows "\<exists>r rs. benchmark_historical tie df cities window workers clk order = Inr r \<and>
           run_sequential tie (city_groups df cities) window [] = Inr rs \<and>
           results_df r = sort_key city rs \<and>
           map city rs = map fst (city_groups df cities)"
proof -
  from assms(3) have w: "0 < workers" by simp
  from strategies_ok [OF assms(1,2) w assms(5)] obtain rs rs' where
    r: "run_sequential tie (city_groups df cities) window [] = Inr rs"
       "run_parallel tie (city_groups df cities) window workers order = Inr rs'"
       "map city rs = map fst (city_groups df cities)" "mset rs' = mset rs"
    by blast
  have d: "distinct (map city rs)" using r(3) city_groups_keys(1) [of df cities] by simp
  have "rs \<noteq> []" using r(3) assms(4) city_groups_empty_iff [of df cities] by auto
  then have "rs' \<noteq> []" using r(4) by auto
  then have s: "sort_values_city rs' = Inr (sort_key city rs)"
    using sort_key_city_perm [OF r(4) d] by (simp add: sort_values_city_def)
  show ?thesis
    using r(1,2,3) s by (simp add: benchmark_historical_def Let_def truediv_def)
qed

lemma rolling_mean_single: "rolling_mean (Suc 0) (Suc 0) [Some x] = [Some x]"
  by (simp add: rolling_mean_def calc_mean_def add_mean_def Let_def)

lemma rolling_std_single: "rolling_std (Suc 0) (Suc 0) [t] = [None]"
  by (cases t) (simp_all add: rolling_std_def calc_var_def zsqrt_def add_var_def Let_def)

lemma groupby_season_single:
  "groupby_season [\<lparr>city = c', timestamp = ts, temperature = Some x, season = Some k\<rparr>] = [(Some k, Some x, None)]"
  by (simp add: groupby_season_def group_keys_def group_mean_def group_std_def obs_mean_def)

lemma merge_left_single:
  "merge_left [\<lparr>city = c', timestamp = ts, temperature = Some x, season = Some k\<rparr>] [(Some k, m, s)]
     = [(\<lparr>city = c', timestamp = ts, temperature = Some x, season = Some k\<rparr>, m, s)]"
  by (simp add: merge_left_def)

lemma sort_values_timestamp_single:
  "sort_values_timestamp tie [r] = [r]"
  by (simp add: sort_values_timestamp_def)

lemma analyze_city_block_single:
  "analyze_city_block tie c [\<lparr>city = c', timestamp = Some t, temperature = Some x, season = Some k\<rparr>] 1
   = Inr \<lparr>city = c, n_days = 1, period_start = Some (t div 86400000000000),
          period_end = Some (t div 86400000000000),
          rolling_anomalies = 0, season_anomalies = 0\<rparr>"
  by (simp add: analyze_city_block_def sort_values_timestamp_single rolling_mean_single
      rolling_std_single groupby_season_single merge_left_single
      series_min_def series_max_def date_def count_true_def notna_def fadd_def fsub_def fmul_def
      fgt_def flt_def Let_def)

lemma city_groups_two:
  "c1 \<noteq> c2 \<Longrightarrow> city_groups df [c1, c2] =
     [(c1, filter (\<lambda>r. city r = c1) df), (c2, filter (\<lambda>r. city r = c2) df)]"
  by (simp add: city_groups_def)

lemma city_groups_one: "city_groups df [c] = [(c, filter (\<lambda>r. city r = c) df)]"
  by (simp add: city_groups_def)

theorem sequential_parallel_equivalent_witness:
  "let df = [\<lparr>city = ''B'', timestamp = Some 0, temperature = Some 2, season = Some ''winter''\<rparr>,
             \<lparr>city = ''A'', timestamp = Some 0, temperature = Some 1, season = Some ''winter''\<rparr>];
       groups = city_groups df [''B'', ''A'']
   in (1::int) \<le> 2 \<and> mset [1, 0] = mset [0..<length groups] \<and>
      run_sequential (\<lambda>ks i. 0) groups 1 [] =
        Inr [\<lparr>city = ''B'', n_days = 1, period_start = Some 0, period_end = Some 0,
               rolling_anomalies = 0, season_anomalies = 0\<rparr>,
             \<lparr>city = ''A'', n_days = 1, period_start = Some 0, period_end = Some 0,
               rolling_anomalies = 0, season_anomalies = 0\<rparr>] \<and>
      map_sum id (sort_key city) (run_sequential (\<lambda>ks i. 0) groups 1 []) =
      map_sum id (sort_key city) (run_parallel (\<lambda>ks i. 0) groups 1 2 [1, 0])"
proof -
  let ?df = "[\<lparr>city = ''B'', timestamp = Some 0, temperature = Some 2, season = Some ''winter''\<rparr>,
             \<lparr>city = ''A'', timestamp = Some 0, temperature = Some 1, season = Some ''winter''\<rparr>]"
  have g: "city_groups ?df [''B'', ''A''] = [(''B'', [?df ! 0]), (''A'', [?df ! 1])]"
    by (simp add: city_groups_two)
  have p: "mset [1, 0] = mset [0..<length (city_groups ?df [''B'', ''A''])]"
    unfolding g by (simp add: upt_rec)
  have s: "run_sequential (\<lambda>ks i. 0) (city_groups ?df [''B'', ''A'']) 1 [] =
        Inr [\<lparr>city = ''B'', n_days = 1, period_start = Some 0, period_end = Some 0,
               rolling_anomalies = 0, season_anomalies = 0\<rparr>,
             \<lparr>city = ''A'', n_days = 1, period_start = Some 0, period_end = Some 0,
               rolling_anomalies = 0, season_anomalies = 0\<rparr>]"
    unfolding g by (simp add: analyze_city_block_single)
  show ?thesis
    using sequential_parallel_equivalent [where workers = 2 and order = "[1, 0]" and df = ?df
        and cities = "[''B'', ''A'']" and tie = "\<lambda>ks i. 0" and window = 1] p s
    by (simp add: Let_def)
qed

text \<open>
  C7. A city without rows in the loaded table gets an empty group, and its analysis (for a
  window that the rolling constructor accepts) returns the degenerate statistics:
  \<open>n_days = 0\<close>, no rolling and no seasonal anomaly, undefined period bounds.
\<close>

theorem empty_city_degenerate:
  assumes "\<forall>r\<in>set df. city r \<noteq> c" and "0 \<le> window"
  shows "analyze_city_block tie c (filter (\<lambda>r. city r = c) df) window =
           Inr \<lparr>city = c, n_days = 0, period_start = None, period_end = None,
                 rolling_anomalies = 0, season_anomalies = 0\<rparr> \<and>
         (c \<in> set cities \<longrightarrow> (c, []) \<in> set (city_groups df cities))"
proof -
  have e: "filter (\<lambda>r. city r = c) df = []"
    using assms(1) by (simp add: filter_empty_conv)
  have a: "analyze_city_block tie c [] window =
           Inr \<lparr>city = c, n_days = 0, period_start = None, period_end = None,
                 rolling_anomalies = 0, season_anomalies = 0\<rparr>"
    using assms(2)
    by (simp add: analyze_city_block_def sort_values_timestamp_def rolling_mean_def rolling_std_def
        groupby_season_def group_keys_def merge_left_def series_min_def series_max_def date_def
        count_true_def Let_def)
  have "(c, []) \<in> set (city_groups df cities)" if "c \<in> set cities"
  proof -
    from that have "c \<in> set (map fst (city_groups df cities))"
      by (simp only: city_groups_keys(2))
    then obtain v where v: "(c, v) \<in> set (city_groups df cities)" by auto
    from city_groups_values [OF v] e show ?thesis using v by simp
  qed
  with a e show ?thesis by simp
qed

theorem empty_city_degenerate_witness:
  "let df = [\<lparr>city = ''A'', timestamp = Some 0, temperature = Some 1, season = Some ''winter''\<rparr>]
   in (\<forall>r\<in>set df. city r \<noteq> ''Z'') \<and> (0::int) \<le> 30 \<and> ''Z'' \<in> set [''A'', ''Z''] \<and>
      analyze_city_block (\<lambda>ks i. 0) ''Z'' (filter (\<lambda>r. city r = ''Z'') df) 30 =
        Inr \<lparr>city = ''Z'', n_days = 0, period_start = None, period_end = None,
              rolling_anomalies = 0, season_anomalies = 0\<rparr> \<and>
      (''Z'', []) \<in> set (city_groups df [''A'', ''Z''])"
  using empty_city_degenerate [where c = "''Z''" and window = 30 and tie = "\<lambda>ks i. 0"
      and cities = "[''A'', ''Z'']" and
      df = "[\<lparr>city = ''A'', timestamp = Some 0, temperature = Some 1, season = Some ''winter''\<rparr>]"]
  by (simp add: Let_def)

lemma collect_results_error:
  "collect_results fs acc = Inl e \<Longrightarrow> Inl e \<in> set fs"
  by (induction fs arbitrary: acc) (auto split: sum.splits)

lemma futures_of_error: "Inl e \<in> set (futures_of tie groups w) \<Longrightarrow> e = window_error w"
  using futures_of_cases [of tie groups w] by auto

lemma run_sequential_error:
  "run_sequential tie groups w acc = Inl e \<Longrightarrow> e = window_error w"
  by (auto simp: run_sequential_collect dest!: collect_results_error futures_of_error)

lemma run_sequential_ok:
  assumes "0 \<le> w" "w < 2 ^ 63"
  shows "\<exists>rs. run_sequential tie groups w [] = Inr rs"
proof -
  from futures_ok [OF assms, of tie groups] obtain rs
    where "futures_of tie groups w = map Inr rs" by blast
  then show ?thesis by (simp add: run_sequential_collect collect_results_ok)
qed

lemma run_parallel_error:
  assumes "run_parallel tie groups w workers order = Inl e" "set order \<subseteq> {0..<length groups}"
  shows "e = ValueError \<or> e = window_error w"
proof (cases "workers \<le> 0")
  case True
  then show ?thesis using assms(1) by (simp add: run_parallel_def)
next
  case False
  then have "collect_results (map (\<lambda>i. futures_of tie groups w ! i) order) [] = Inl e"
    using assms(1) by (simp add: run_parallel_collect)
  from collect_results_error [OF this] obtain i
    where i: "i \<in> set order" "futures_of tie groups w ! i = Inl e" by auto
  then have "i < length groups" using assms(2) by auto
  then have "Inl e \<in> set (futures_of tie groups w)"
    using i(2) by (metis length_futures_of nth_mem)
  then show ?thesis by (simp add: futures_of_error)
qed

text \<open>
  C8, as the code has it. The harness hands the worker count to the thread pool as it is:
  with a count below one the run fails, for a window below \<open>2\<^sup>6\<^sup>3\<close> with the \<^verbatim>\<open>ValueError\<close>
  of the pool or of the rolling constructor; with a count of at least one, a window from
  0 to below \<open>2\<^sup>6\<^sup>3\<close> and a city list that is not empty, the run completes.
\<close>

theorem workers_not_clamped:
  "(workers \<le> 0 \<longrightarrow>
      (\<exists>e. benchmark_historical tie df cities window workers clk order = Inl e) \<and>
      (window < 2 ^ 63 \<longrightarrow>
         benchmark_historical tie df cities window workers clk order = Inl ValueError)) \<and>
   (1 \<le> workers \<and> 0 \<le> window \<and> window < 2 ^ 63 \<and> cities \<noteq> [] \<and>
    mset order = mset [0..<length (city_groups df cities)] \<longrightarrow>
      (\<exists>r. benchmark_historical tie df cities window workers clk order = Inr r))"
proof (intro conjI impI)
  assume w: "workers \<le> 0"
  show "\<exists>e. benchmark_historical tie df cities window workers clk order = Inl e"
  proof (cases "run_sequential tie (city_groups df cities) window []")
    case (Inl e)
    then show ?thesis by (simp add: benchmark_historical_def Let_def)
  next
    case (Inr rs)
    then show ?thesis using w by (simp add: benchmark_historical_def Let_def run_parallel_def)
  qed
next
  assume w: "workers \<le> 0" and small: "window < 2 ^ 63"
  show "benchmark_historical tie df cities window workers clk order = Inl ValueError"
  proof (cases "run_sequential tie (city_groups df cities) window []")
    case (Inl e)
    have "window < 0"
    proof (rule ccontr)
      assume "\<not> window < 0"
      then have "0 \<le> window" by simp
      from run_sequential_ok [OF this small, of tie "city_groups df cities"] Inl
      show False by simp
    qed
    then have "e = ValueError"
      using run_sequential_error [OF Inl] by (simp add: window_error_def)
    with Inl show ?thesis by (simp add: benchmark_historical_def Let_def)
  next
    case (Inr rs)
    then show ?thesis using w by (simp add: benchmark_historical_def Let_def run_parallel_def)
  qed
next
  assume "1 \<le> workers \<and> 0 \<le> window \<and> window < 2 ^ 63 \<and> cities \<noteq> [] \<and>
    mset order = mset [0..<length (city_groups df cities)]"
  then show "\<exists>r. benchmark_historical tie df cities window workers clk order = Inr r"
    using benchmark_historical_ok [where window = window and workers = workers and cities = cities
        and order = order and df = df and clk = clk and tie = tie]
    by blast
qed

text \<open>C8 as stated fails: with zero workers the run ends with \<^verbatim>\<open>ValueError\<close>.\<close>

theorem workers_clamped_counterexample:
  "benchmark_historical (\<lambda>ks i. 0)
     [\<lparr>city = ''A'', timestamp = Some 0, temperature = Some 1, season = Some ''winter''\<rparr>]
     [''A''] 1 0 \<lparr>seq_start = 0, seq_end = 1, par_start = 1, par_end = 2\<rparr> [0] = Inl ValueError"
  by (simp add: benchmark_historical_def city_groups_one analyze_city_block_single run_parallel_def)

theorem workers_not_clamped_witness:
  "let df = [\<lparr>city = ''A'', timestamp = Some 0, temperature = Some 1, season = Some ''winter''\<rparr>];
       clk = \<lparr>seq_start = 0, seq_end = 1, par_start = 1, par_end = 2\<rparr>
   in (0::int) \<le> 0 \<and> (1::int) < 2 ^ 63 \<and>
      benchmark_historical (\<lambda>ks i. 0) df [''A''] 1 0 clk [0] = Inl ValueError \<and>
      (1::int) \<le> 1 \<and> (0::int) \<le> 1 \<and> [''A''] \<noteq> [] \<and>
      mset [0] = mset [0..<length (city_groups df [''A''])] \<and>
      benchmark_historical (\<lambda>ks i. 0) df [''A''] 1 1 clk [0] =
        Inr \<lparr>t_seq = 1, t_par = 1, speedup = Some 1,
              results_df = [\<lparr>city = ''A'', n_days = 1, period_start = Some 0, period_end = Some 0,
                               rolling_anomalies = 0, season_anomalies = 0\<rparr>]\<rparr>"
proof -
  let ?df = "[\<lparr>city = ''A'', timestamp = Some 0, temperature = Some 1, season = Some ''winter''\<rparr>]"
  let ?clk = "\<lparr>seq_start = 0, seq_end = 1, par_start = 1, par_end = 2\<rparr>"
  have p: "mset [0] = mset [0..<length (city_groups ?df [''A''])]"
    by (simp add: city_groups_one)
  have r: "benchmark_historical (\<lambda>ks i. 0) ?df [''A''] 1 1 ?clk [0] =
        Inr \<lparr>t_seq = 1, t_par = 1, speedup = Some 1,
              results_df = [\<lparr>city = ''A'', n_days = 1, period_start = Some 0, period_end = Some 0,
                               rolling_anomalies = 0, season_anomalies = 0\<rparr>]\<rparr>"
    by (simp add: benchmark_historical_def city_groups_one analyze_city_block_single
        run_parallel_def sort_values_city_def truediv_def)
  show ?thesis
    using workers_not_clamped [where workers = 0 and df = ?df and cities = "[''A'']"
        and window = 1 and clk = ?clk and order = "[0]" and tie = "\<lambda>ks i. 0"]
      workers_not_clamped [where workers = 1 and df = ?df and cities = "[''A'']"
        and window = 1 and clk = ?clk and order = "[0]" and tie = "\<lambda>ks i. 0"] p r
    by (simp add: Let_def)
qed

text \<open>
  C9. The division of the two measured times is guarded: no run of the batch harness ends
  with \<^verbatim>\<open>ZeroDivisionError\<close>; a run that reports has the speed-up
  \<open>t_seq / t_par\<close> when \<open>t_par\<close> is positive and the undefined marker \<open>None\<close> otherwise, in
  particular when \<open>t_par\<close> is exactly zero; the metric of the page is the quotient or a dash.
\<close>

theorem speedup_guarded:
  assumes "set order \<subseteq> {0..<length (city_groups df cities)}"
  shows "benchmark_historical tie df cities window workers clk order \<noteq> Inl ZeroDivisionError \<and>
     (\<forall>r. benchmark_historical tie df cities window workers clk order = Inr r \<longrightarrow>
        t_seq r = seq_end clk - seq_start clk \<and> t_par r = par_end clk - par_start clk \<and>
        speedup r = (if t_par r > 0 then Some (t_seq r / t_par r) else None) \<and>
        (t_par r = 0 \<longrightarrow> speedup r = None)) \<and>
     speedup_metric t_sync t_async = Inr (if t_async > 0 then Formatted (t_sync / t_async) else Dash) \<and>
     speedup_metric t_sync 0 = Inr Dash"
proof -
  have sp: "(if 0 < b then map_sum id Some (truediv a b) else Inr None) =
            Inr (if 0 < b then Some (a / b) else None)" for a b :: real
    by (simp add: truediv_def)
  have 1: "benchmark_historical tie df cities window workers clk order \<noteq> Inl ZeroDivisionError"
  proof
    assume b: "benchmark_historical tie df cities window workers clk order = Inl ZeroDivisionError"
    show False
    proof (cases "run_sequential tie (city_groups df cities) window []")
      case (Inl e)
      then show False using b run_sequential_error [OF Inl]
        by (simp add: benchmark_historical_def Let_def window_error_def split: if_splits)
    next
      case seq: (Inr rs)
      show False
      proof (cases "run_parallel tie (city_groups df cities) window workers order")
        case (Inl e)
        then show False using b seq run_parallel_error [OF Inl assms]
          by (auto simp: benchmark_historical_def Let_def window_error_def split: if_splits)
      next
        case (Inr rs')
        then show False using b seq
          by (simp add: benchmark_historical_def Let_def sp sort_values_city_def split: if_splits)
      qed
    qed
  qed
  have 2: "t_seq r = seq_end clk - seq_start clk \<and> t_par r = par_end clk - par_start clk \<and>
        speedup r = (if t_par r > 0 then Some (t_seq r / t_par r) else None) \<and>
        (t_par r = 0 \<longrightarrow> speedup r = None)"
    if "benchmark_historical tie df cities window workers clk order = Inr r" for r
    using that
    by (auto simp: benchmark_historical_def Let_def sp split: sum.splits if_splits)
  have 3: "speedup_metric t_sync t_async = Inr (if t_async > 0 then Formatted (t_sync / t_async) else Dash)"
    by (simp add: speedup_metric_def truediv_def)
  have 4: "speedup_metric t_sync 0 = Inr Dash"
    by (simp add: speedup_metric_def)
  show ?thesis using 1 2 3 4 by blast
qed

theorem speedup_guarded_witness:
  "let df = [\<lparr>city = ''A'', timestamp = Some 0, temperature = Some 1, season = Some ''winter''\<rparr>];
       clk = \<lparr>seq_start = 0, seq_end = 3, par_start = 3, par_end = 3\<rparr>
   in set [0] \<subseteq> {0..<length (city_groups df [''A''])} \<and>
      (\<exists>r. benchmark_historical (\<lambda>ks i. 0) df [''A''] 1 1 clk [0] = Inr r \<and> t_seq r = 3 \<and> t_par r = 0 \<and>
           speedup r = None) \<and>
      speedup_metric 3 0 = Inr Dash"
proof -
  let ?df = "[\<lparr>city = ''A'', timestamp = Some 0, temperature = Some 1, season = Some ''winter''\<rparr>]"
  let ?clk = "\<lparr>seq_start = 0, seq_end = 3, par_start = 3, par_end = 3\<rparr>"
  have p: "set [0] \<subseteq> {0..<length (city_groups ?df [''A''])}"
    by (simp add: city_groups_one)
  obtain r where r: "benchmark_historical (\<lambda>ks i. 0) ?df [''A''] 1 1 ?clk [0] = Inr r"
    using benchmark_historical_ok [where window = 1 and workers = 1 and cities = "[''A'']"
        and order = "[0]" and df = ?df and clk = ?clk and tie = "\<lambda>ks i. 0"]
    by (auto simp: city_groups_one)
  show ?thesis
    using speedup_guarded [OF p, where window = 1 and workers = 1 and clk = ?clk
        and t_sync = 3 and t_async = 0 and tie = "\<lambda>ks i. 0"] p r
    by (simp add: Let_def)
qed

subsection \<open>Live-weather harness and failures\<close>

lemma sync_loop_rows:
  "sync_loop parse fetch cs acc = acc @ map (weather_row_of parse fetch) cs"
  by (induction cs arbitrary: acc) (simp_all add: weather_row_of_def)

lemma async_many_rows:
  "async_many parse fetch cs = map (weather_row_of parse fetch) cs"
proof -
  have "zip cs (map fetch cs) = map (\<lambda>c. (c, fetch c)) cs"
    by (induction cs) simp_all
  then show ?thesis
    by (simp add: async_many_def weather_row_of_def comp_def)
qed

text \<open>Both strategies of the live-weather harness record one row per city, in input order.\<close>

lemma live_rows_complete:
  "map fst (sync_loop parse fetch_sync cities []) = cities \<and>
   map fst (async_many parse fetch_async cities) = cities"
proof -
  have "fst (weather_row_of parse f c) = c" for f c
    by (simp add: weather_row_of_def split: sum.splits)
  then show ?thesis
    by (simp add: sync_loop_rows async_many_rows comp_def)
qed

lemma read_responses_length:
  "read_responses read_json responses results = Inr out \<Longrightarrow>
     length out = length results + length responses"
proof (induction responses arbitrary: results)
  case Nil
  then show ?case by simp
next
  case (Cons resp responses)
  show ?case
  proof (cases resp)
    case (Inl msg)
    with Cons.prems Cons.IH [of "results @ [JObj [(''cod'', JStr ''error''), (''message'', JStr msg)]]"]
    show ?thesis by simp
  next
    case (Inr rsp)
    with Cons.prems obtain data where "read_json rsp = Inr data"
      by (cases "read_json rsp") auto
    with Inr Cons.prems Cons.IH [of "results @ [data]"] show ?thesis by simp
  qed
qed

lemma fetch_many_cities_async_complete:
  "fetch_many_cities_async session_get read_json cities = Inr out \<Longrightarrow> length out = length cities"
  by (auto simp: fetch_many_cities_async_def dest: read_responses_length)





text \<open>
  For a city list that is not empty (a window from 0 to below \<open>2\<^sup>6\<^sup>3\<close>, a pool of at least
  one worker), the reported result set of the batch harness is sorted by city name and has
  exactly one entry for every city of the list.
\<close>

lemma batch_results_complete:
  assumes "0 \<le> window" "window < 2 ^ 63" "1 \<le> workers" "cities \<noteq> []"
    and "mset order = mset [0..<length (city_groups df cities)]"
  shows "\<exists>r. benchmark_historical tie df cities window workers clk order = Inr r \<and>
           sorted (map city (results_df r)) \<and> distinct (map city (results_df r)) \<and>
           set (map city (results_df r)) = set cities"
proof -
  from benchmark_historical_ok [OF assms, of tie clk] obtain r rs where
    r: "benchmark_historical tie df cities window workers clk order = Inr r"
       "results_df r = sort_key city rs" "map city rs = map fst (city_groups df cities)"
    by blast
  have m: "mset (map city (results_df r)) = mset (map fst (city_groups df cities))"
    using r(2,3) by (metis mset_map mset_sort)
  have "distinct (map city (results_df r))"
    using m city_groups_keys(1) [of df cities] by (metis mset_eq_imp_distinct_iff)
  moreover have "set (map city (results_df r)) = set cities"
    using m city_groups_keys(2) [of df cities] by (metis mset_eq_setD)
  moreover have "sorted (map city (results_df r))"
    by (simp add: r(2))
  ultimately show ?thesis using r(1) by blast
qed

text \<open>
  C6. For the empty city list the batch harness does not report an empty result set:
  sorting the frame built from no results by \<open>city\<close> raises \<^verbatim>\<open>KeyError\<close>.
\<close>

theorem benchmark_historical_empty_city_list:
  "benchmark_historical (\<lambda>ks i. 0)
     [\<lparr>city = ''A'', timestamp = Some 0, temperature = Some 1, season = Some ''winter''\<rparr>]
     [] 30 4 \<lparr>seq_start = 0, seq_end = 1, par_start = 1, par_end = 2\<rparr> [] = Inl KeyError"
  by (simp add: benchmark_historical_def city_groups_def run_parallel_def sort_values_city_def
      truediv_def)

end
